theory Spec2Isabelle
  imports Main "HOL-Library.AList" "HOL-Library.Sublist"
begin

section \<open>The file system seen by the organizer\<close>

text \<open>
  \<^verbatim>\<open>organize_directory\<close> and \<^verbatim>\<open>undo_last_organization\<close> of
  \<^verbatim>\<open>file_organizer_gui.py\<close> act on the file system through \<^verbatim>\<open>os.listdir\<close>,
  \<^verbatim>\<open>os.path.isdir\<close>, \<^verbatim>\<open>os.path.getsize\<close>, \<^verbatim>\<open>os.makedirs\<close> and
  \<^verbatim>\<open>shutil.move\<close>. The file system is a tree: a regular file with its bytes, a
  directory with its named entries in listing order, or a symbolic link that stays
  dangling. \<open>Dangling\<close> is a link that no state of the file system resolves: its
  target names no possible file (a name longer than the file system allows, say), so
  that \<^verbatim>\<open>stat\<close> fails on it whatever is created, moved or removed, and wherever the
  link itself is moved. \<^verbatim>\<open>os.path.getsize\<close> raises \<^verbatim>\<open>OSError\<close> on it and
  \<^verbatim>\<open>os.path.isdir\<close> and \<^verbatim>\<open>os.path.exists\<close> are false; \<^verbatim>\<open>os.rename\<close>
  treats it as any entry that is not a directory. A path is the list of its components
  below the root. The library calls follow CPython on a single POSIX file system.

  A symbolic link with a target that exists, or that a move can bring into existence,
  is not a node of this tree: the section on symbolic links with a target adds such links
  and runs the same loop on them. Permissions, hard links and moves across devices are
  outside both models.
\<close>

datatype node = File string | Dir "(string \<times> node) list" | Dangling

type_synonym path = "string list"

fun lookup :: "node \<Rightarrow> path \<Rightarrow> node option" where
  "lookup n [] = Some n"
| "lookup (Dir es) (x # xs) = (case map_of es x of None \<Rightarrow> None | Some c \<Rightarrow> lookup c xs)"
| "lookup _ (x # xs) = None"

text \<open>\<open>attach fs p n\<close> binds the last component of \<open>p\<close> to \<open>n\<close> in its parent directory
  (replacing an entry of that name); it fails when the parent is not a directory.\<close>

fun attach :: "node \<Rightarrow> path \<Rightarrow> node \<Rightarrow> node option" where
  "attach (Dir es) [x] n = Some (Dir (AList.update x n es))"
| "attach (Dir es) (x # y # ys) n =
     (case map_of es x of
        None \<Rightarrow> None
      | Some c \<Rightarrow> (case attach c (y # ys) n of
                     None \<Rightarrow> None
                   | Some c' \<Rightarrow> Some (Dir (AList.update x c' es))))"
| "attach _ _ _ = None"

text \<open>\<open>detach fs p\<close> removes the entry at \<open>p\<close> from its parent directory.\<close>

fun detach :: "node \<Rightarrow> path \<Rightarrow> node" where
  "detach (Dir es) [x] = Dir (AList.delete x es)"
| "detach (Dir es) (x # y # ys) =
     (case map_of es x of
        None \<Rightarrow> Dir es
      | Some c \<Rightarrow> Dir (AList.update x (detach c (y # ys)) es))"
| "detach n _ = n"

subsection \<open>\<^verbatim>\<open>os.path\<close> and \<^verbatim>\<open>os\<close>\<close>

definition isdir :: "node \<Rightarrow> path \<Rightarrow> bool" where
  "isdir fs p = (case lookup fs p of Some (Dir _) \<Rightarrow> True | _ \<Rightarrow> False)"

text \<open>\<^verbatim>\<open>os.path.exists\<close> follows links: it is false on \<open>Dangling\<close>.\<close>

definition exists :: "node \<Rightarrow> path \<Rightarrow> bool" where
  "exists fs p = (case lookup fs p of Some (Dir _) \<Rightarrow> True | Some (File _) \<Rightarrow> True | _ \<Rightarrow> False)"

text \<open>\<^verbatim>\<open>os.path.getsize\<close>: \<open>None\<close> is the \<^verbatim>\<open>OSError\<close> of a failed \<^verbatim>\<open>stat\<close>. The size
  reported for a directory depends on the file system; \<^verbatim>\<open>organize_directory\<close> skips
  directories before it asks for a size, so the value given here is never read.\<close>

definition getsize :: "node \<Rightarrow> path \<Rightarrow> nat option" where
  "getsize fs p =
     (case lookup fs p of
        Some (File c) \<Rightarrow> Some (length c)
      | Some (Dir _) \<Rightarrow> Some 0
      | _ \<Rightarrow> None)"

text \<open>\<^verbatim>\<open>os.listdir\<close>: the names of the entries, in the directory's own order; \<open>None\<close> is
  the exception raised when the path is missing or not a directory.\<close>

definition listdir :: "node \<Rightarrow> path \<Rightarrow> string list option" where
  "listdir fs p = (case lookup fs p of Some (Dir es) \<Rightarrow> Some (map fst es) | _ \<Rightarrow> None)"

fun mkchain :: "path \<Rightarrow> node" where
  "mkchain [] = Dir []"
| "mkchain (x # xs) = Dir [(x, mkchain xs)]"

text \<open>\<^verbatim>\<open>os.makedirs(p, exist_ok=True)\<close>: creates the missing directories along \<open>p\<close>; an
  existing directory is accepted, a file or \<open>Dangling\<close> on the way raises (\<open>None\<close>).\<close>

fun makedirs :: "node \<Rightarrow> path \<Rightarrow> node option" where
  "makedirs (Dir es) [] = Some (Dir es)"
| "makedirs (Dir es) (x # xs) =
     (case map_of es x of
        None \<Rightarrow> Some (Dir (AList.update x (mkchain xs) es))
      | Some c \<Rightarrow> (case makedirs c xs of
                     None \<Rightarrow> None
                   | Some c' \<Rightarrow> Some (Dir (AList.update x c' es))))"
| "makedirs _ _ = None"

text \<open>\<^verbatim>\<open>os.rename\<close> (POSIX \<^verbatim>\<open>rename(2)\<close>): a non-directory replaces an existing
  non-directory; a directory replaces only an empty directory; a directory cannot be moved
  below itself; the parent of the destination must be a directory. \<open>None\<close> is
  \<^verbatim>\<open>OSError\<close>.\<close>

definition os_rename :: "node \<Rightarrow> path \<Rightarrow> path \<Rightarrow> node option" where
  "os_rename fs src dst =
     (case lookup fs src of
        None \<Rightarrow> None
      | Some n \<Rightarrow>
          if src = dst then Some fs
          else if src = [] \<or> dst = [] then None
          else if prefix src dst then None
          else (case lookup fs dst of
                  None \<Rightarrow> attach (detach fs src) dst n
                | Some (Dir ds) \<Rightarrow>
                    (case n of
                       Dir _ \<Rightarrow> if ds = [] then attach (detach fs src) dst n else None
                     | _ \<Rightarrow> None)
                | Some _ \<Rightarrow>
                    (case n of
                       Dir _ \<Rightarrow> None
                     | _ \<Rightarrow> attach (detach fs src) dst n)))"

subsection \<open>\<^verbatim>\<open>shutil.move\<close>\<close>

datatype move_error = ShutilError | OSError

definition basename :: "path \<Rightarrow> path" where
  "basename p = (if p = [] then [] else [last p])"

definition dirname :: "path \<Rightarrow> path" where
  "dirname p = butlast p"

text \<open>
  \<^verbatim>\<open>shutil.move(src, dst)\<close>, in the order of its source: when \<open>dst\<close> is a directory the
  file goes inside it, and \<^verbatim>\<open>shutil.Error\<close> is raised if the name is taken there;
  otherwise \<^verbatim>\<open>os.rename\<close> is tried, which silently replaces an existing regular file.
  When the rename fails, a directory that would move into itself raises
  \<^verbatim>\<open>shutil.Error\<close>, a directory is otherwise copied with \<^verbatim>\<open>copytree\<close> (which creates
  missing parents and refuses an existing destination) and removed, and the copy of
  anything else fails for the reason the rename did.
\<close>

definition shutil_move :: "node \<Rightarrow> path \<Rightarrow> path \<Rightarrow> move_error + node" where
  "shutil_move fs src dst =
     (if isdir fs dst \<and> src = dst then Inr fs
      else
        let real_dst = (if isdir fs dst then dst @ basename src else dst) in
        if isdir fs dst \<and> exists fs real_dst then Inl ShutilError
        else
          (case os_rename fs src real_dst of
             Some fs' \<Rightarrow> Inr fs'
           | None \<Rightarrow>
               (case lookup fs src of
                  Some (Dir es) \<Rightarrow>
                    if prefix src dst then Inl ShutilError
                    else (case lookup fs real_dst of
                            Some _ \<Rightarrow> Inl OSError
                          | None \<Rightarrow>
                              (case makedirs fs (dirname real_dst) of
                                 None \<Rightarrow> Inl OSError
                               | Some fs1 \<Rightarrow>
                                   (case attach (detach fs1 src) real_dst (Dir es) of
                                      None \<Rightarrow> Inl OSError
                                    | Some fs2 \<Rightarrow> Inr fs2)))
                | _ \<Rightarrow> Inl OSError)))"

section \<open>Classification\<close>

text \<open>\<^verbatim>\<open>self.FILE_TYPE_MAP\<close>: a dictionary, iterated in insertion order.\<close>

definition FILE_TYPE_MAP :: "(string \<times> string list) list" where
  "FILE_TYPE_MAP =
     [(''Images'', [''.jpg'', ''.jpeg'', ''.png'', ''.gif'', ''.bmp'', ''.svg'', ''.tiff'']),
      (''Documents'', [''.pdf'', ''.docx'', ''.doc'', ''.txt'', ''.pptx'', ''.xlsx'', ''.odt'', ''.rtf'']),
      (''Videos'', [''.mp4'', ''.mov'', ''.avi'', ''.mkv'', ''.flv'', ''.wmv'']),
      (''Audio'', [''.mp3'', ''.wav'', ''.aac'', ''.flac'', ''.ogg'']),
      (''Archives'', [''.zip'', ''.rar'', ''.7z'', ''.tar'', ''.gz'']),
      (''Scripts'', [''.py'', ''.js'', ''.html'', ''.css'', ''.sh'', ''.bat'']),
      (''Others'', [])]"

text \<open>\<^verbatim>\<open>str.rfind\<close> of one character: the last index, or \<open>-1\<close>.\<close>

fun rfind :: "string \<Rightarrow> char \<Rightarrow> int" where
  "rfind [] c = - 1"
| "rfind (x # xs) c =
     (let r = rfind xs c in if 0 \<le> r then r + 1 else if x = c then 0 else - 1)"

text \<open>\<^verbatim>\<open>os.path.splitext\<close> (\<^verbatim>\<open>genericpath._splitext\<close> with separator \<^verbatim>\<open>/\<close>): the
  extension starts at the last dot, unless only dots precede it in the file name.\<close>

definition splitext :: "string \<Rightarrow> string \<times> string" where
  "splitext p =
     (let sepIndex = rfind p (CHR ''/'');
          dotIndex = rfind p (CHR ''.'')
      in if sepIndex < dotIndex \<and>
            list_ex (\<lambda>ch. ch \<noteq> CHR ''.'')
              (take (nat (dotIndex - (sepIndex + 1))) (drop (nat (sepIndex + 1)) p))
         then (take (nat dotIndex) p, drop (nat dotIndex) p)
         else (p, []))"

text \<open>\<^verbatim>\<open>str.lower\<close>, as far as a comparison with the table can tell. Names are
  strings of bytes, the UTF-8 form of the names Python holds. An ASCII capital becomes its
  small letter, and so does KELVIN SIGN (U+212A, the bytes \<^verbatim>\<open>E2 84 AA\<close>), the one
  character outside ASCII whose lower case is an ASCII letter, \<^verbatim>\<open>k\<close>. Every other
  character outside ASCII is kept as it is: its lower case holds a character outside
  ASCII again, so the lowered extension is in no list of the table either way.\<close>

definition lower_char :: "char \<Rightarrow> char" where
  "lower_char c =
     (case map_of (zip ''ABCDEFGHIJKLMNOPQRSTUVWXYZ'' ''abcdefghijklmnopqrstuvwxyz'') c of
        Some d \<Rightarrow> d
      | None \<Rightarrow> c)"

fun lower :: "string \<Rightarrow> string" where
  "lower (a # b # c # s) =
     (if a = CHR 0xE2 \<and> b = CHR 0x84 \<and> c = CHR 0xAA then CHR ''k'' # lower s
      else lower_char a # lower (b # c # s))"
| "lower (a # s) = lower_char a # lower s"
| "lower [] = []"

text \<open>The classification loop of \<^verbatim>\<open>organize_directory\<close>: \<^verbatim>\<open>category = "Others"\<close>, then
  the first entry of the table whose list holds the extension, and \<^verbatim>\<open>break\<close>.\<close>

fun classify :: "(string \<times> string list) list \<Rightarrow> string \<Rightarrow> string" where
  "classify [] file_ext = ''Others''"
| "classify ((cat, exts) # rest) file_ext =
     (if file_ext \<in> set exts then cat else classify rest file_ext)"

section \<open>The organizer\<close>

datatype level = info | warning | error

datatype message =
    Starting bool path
  | Skipping string
  | CouldNotAnalyze string
  | WouldMove string string
  | Moved string string
  | CouldNotMove string
  | ErrorMoving string
  | NoNewFiles
  | Complete bool
  | Unexpected

text \<open>
  The state of one run of \<^verbatim>\<open>organize_directory\<close>: the file system,
  \<^verbatim>\<open>self.last_move_actions\<close>, the local variables \<^verbatim>\<open>analytics_data\<close> (category to
  count and size), \<^verbatim>\<open>files_processed_count\<close> and \<^verbatim>\<open>all_file_sizes\<close>, and the lines
  handed to \<^verbatim>\<open>log_and_update\<close> with their level. The text of a log line is kept as a
  constructor with the names it mentions; the exception text is dropped.
\<close>

record 'fs run_state =
  disk :: 'fs
  last_move_actions :: "(path \<times> path) list"
  analytics_data :: "(string \<times> nat \<times> nat) list"
  files_processed_count :: nat
  all_file_sizes :: "nat list"
  log_lines :: "(level \<times> message) list"

type_synonym run = "node run_state"

definition log_and_update :: "message \<Rightarrow> level \<Rightarrow> 'fs run_state \<Rightarrow> 'fs run_state" where
  "log_and_update m l r = r\<lparr>log_lines := log_lines r @ [(l, m)]\<rparr>"

text \<open>\<^verbatim>\<open>analytics_data\<close> as first built: every key of the table, then \<^verbatim>\<open>"Others"\<close>
  (already a key of \<^verbatim>\<open>FILE_TYPE_MAP\<close>, so the assignment adds nothing).\<close>

definition initial_analytics :: "(string \<times> nat \<times> nat) list" where
  "initial_analytics =
     AList.update ''Others'' (0, 0) (map (\<lambda>(category, exts). (category, (0, 0))) FILE_TYPE_MAP)"

text \<open>\<^verbatim>\<open>analytics_data[category]['count'] += 1\<close> and
  \<^verbatim>\<open>analytics_data[category]['size'] += file_size\<close>.\<close>

definition record_file :: "string \<Rightarrow> nat \<Rightarrow> (string \<times> nat \<times> nat) list \<Rightarrow> (string \<times> nat \<times> nat) list" where
  "record_file category file_size a =
     AList.map_entry category (\<lambda>(c, s). (c + 1, s + file_size)) a"

definition reserved :: "string list" where
  "reserved = [''file_organizer_app.py'', ''file_organizer.log'']"

text \<open>The body of the \<^verbatim>\<open>for item_name in all_items\<close> loop.\<close>

definition process_item :: "path \<Rightarrow> bool \<Rightarrow> string \<Rightarrow> run \<Rightarrow> run" where
  "process_item target_path dry_run item_name r =
     (let source_item_path = target_path @ [item_name] in
      if item_name \<in> set reserved then r
      else if isdir (disk r) source_item_path then log_and_update (Skipping item_name) info r
      else
        (case getsize (disk r) source_item_path of
           None \<Rightarrow> log_and_update (CouldNotAnalyze item_name) warning r
         | Some file_size \<Rightarrow>
             let file_ext = lower (snd (splitext item_name));
                 category = classify FILE_TYPE_MAP file_ext;
                 r1 = r\<lparr>all_file_sizes := all_file_sizes r @ [file_size],
                        analytics_data := record_file category file_size (analytics_data r)\<rparr>;
                 dest_folder_path = target_path @ [category];
                 final_dest_path = dest_folder_path @ [item_name]
             in if dry_run then
                  (log_and_update (WouldMove item_name category) info r1)
                    \<lparr>files_processed_count := files_processed_count r1 + 1\<rparr>
                else
                  (case makedirs (disk r1) dest_folder_path of
                     None \<Rightarrow> log_and_update (ErrorMoving item_name) error r1
                   | Some fs1 \<Rightarrow>
                       (case shutil_move fs1 source_item_path final_dest_path of
                          Inl ShutilError \<Rightarrow>
                            log_and_update (CouldNotMove item_name) warning (r1\<lparr>disk := fs1\<rparr>)
                        | Inl OSError \<Rightarrow>
                            log_and_update (ErrorMoving item_name) error (r1\<lparr>disk := fs1\<rparr>)
                        | Inr fs2 \<Rightarrow>
                            (log_and_update (Moved item_name category) info (r1\<lparr>disk := fs2\<rparr>))
                              \<lparr>last_move_actions :=
                                 last_move_actions r1 @ [(final_dest_path, source_item_path)],
                               files_processed_count := files_processed_count r1 + 1\<rparr>))))"

text \<open>The statements before the \<^verbatim>\<open>try\<close>: the start line, the clearing of
  \<^verbatim>\<open>last_move_actions\<close> on a real run, and the fresh local variables.\<close>

definition start_run :: "'fs \<Rightarrow> (path \<times> path) list \<Rightarrow> path \<Rightarrow> bool \<Rightarrow> 'fs run_state" where
  "start_run fs0 actions target_path dry_run =
     \<lparr>disk = fs0,
      last_move_actions = (if dry_run then actions else []),
      analytics_data = initial_analytics,
      files_processed_count = 0,
      all_file_sizes = [],
      log_lines = [(info, Starting dry_run target_path)]\<rparr>"

text \<open>The statements after the loop.\<close>

definition finish_run :: "bool \<Rightarrow> 'fs run_state \<Rightarrow> 'fs run_state" where
  "finish_run dry_run r =
     log_and_update (Complete dry_run) info
       (if files_processed_count r = 0 then log_and_update NoNewFiles info r else r)"

text \<open>\<^verbatim>\<open>organize_directory(target_path, dry_run)\<close>, run on a file system and a value of
  \<^verbatim>\<open>self.last_move_actions\<close>. The result holds what the method leaves behind: the file
  system, the action log, the lines logged, and the final values of its local variables,
  which after a successful listing are what it hands to the dashboard. A failing
  \<^verbatim>\<open>os.listdir\<close> goes to the outer handler, which logs one error. The calls into the
  window (\<^verbatim>\<open>root.after\<close> with the log area, the dashboard and
  \<^verbatim>\<open>finalize_organization\<close>) change nothing the method reads.\<close>

definition organize_directory :: "node \<Rightarrow> (path \<times> path) list \<Rightarrow> path \<Rightarrow> bool \<Rightarrow> run" where
  "organize_directory fs0 actions target_path dry_run =
     (let r0 = start_run fs0 actions target_path dry_run in
      case listdir fs0 target_path of
        None \<Rightarrow> log_and_update Unexpected error r0
      | Some all_items \<Rightarrow> finish_run dry_run (fold (process_item target_path dry_run) all_items r0))"

section \<open>Undo\<close>




section \<open>What a path shows\<close>

text \<open>The observable part of a node: a directory without its entries, anything else as
  it is. \<open>stat fs p\<close> is what the path \<open>p\<close> shows; the tests of \<^verbatim>\<open>os.path\<close>
  depend on the file system through it alone.\<close>

fun shape :: "node \<Rightarrow> node" where
  "shape (Dir es) = Dir []"
| "shape n = n"

definition stat :: "node \<Rightarrow> path \<Rightarrow> node option" where
  "stat fs p = map_option shape (lookup fs p)"

text \<open>The category a name is sorted into (lines 114 and 117 to 121 of the source).\<close>

definition category_of :: "string \<Rightarrow> string" where
  "category_of item_name = classify FILE_TYPE_MAP (lower (snd (splitext item_name)))"

section \<open>Reading a run\<close>

text \<open>The moves a log reports: for each line \<^verbatim>\<open>Moved: 'item' -> 'category'\<close> the pair
  of the destination and the source path of that item.\<close>

fun moves_logged :: "path \<Rightarrow> (level \<times> message) list \<Rightarrow> (path \<times> path) list" where
  "moves_logged target_path [] = []"
| "moves_logged target_path ((l, Moved item_name category) # rest) =
     (target_path @ [category, item_name], target_path @ [item_name]) # moves_logged target_path rest"
| "moves_logged target_path (_ # rest) = moves_logged target_path rest"

text \<open>Dry runs one after the other, each on the file system and the action log the
  previous one left.\<close>

definition dry_runs :: "path list \<Rightarrow> node \<times> (path \<times> path) list \<Rightarrow> node \<times> (path \<times> path) list" where
  "dry_runs targets st =
     fold (\<lambda>target_path (fs0, actions).
             let r = organize_directory fs0 actions target_path True
             in (disk r, last_move_actions r))
       targets st"

text \<open>The totals of a snapshot over its categories.\<close>

definition count_total :: "(string \<times> nat \<times> nat) list \<Rightarrow> nat" where
  "count_total a = sum_list (map (\<lambda>(category, n, s). n) a)"

definition size_total :: "(string \<times> nat \<times> nat) list \<Rightarrow> nat" where
  "size_total a = sum_list (map (\<lambda>(category, n, s). s) a)"

text \<open>The invariant of the loop: the snapshot keeps the keys it started with, and its
  totals are those of the flat size list.\<close>

definition consistent :: "run \<Rightarrow> bool" where
  "consistent r \<longleftrightarrow>
     fst ` set (analytics_data r) = fst ` set initial_analytics \<and>
     count_total (analytics_data r) = length (all_file_sizes r) \<and>
     size_total (analytics_data r) = sum_list (all_file_sizes r)"

text \<open>The directory of the scenario of the specification, in the order the scenario
  names its files, and in every order a listing can give them.\<close>

definition scenario :: node where
  "scenario =
     Dir [(''home'',
           Dir [(''photo.JPG'', File (replicate 2048 (CHR ''p''))),
                (''notes.txt'', File (replicate 100 (CHR ''n''))),
                (''archive.unknownext'', File (replicate 500 (CHR ''a'')))])]"

definition scenario_entries :: "(string \<times> node) list" where
  "scenario_entries =
     [(''photo.JPG'', File (replicate 2048 (CHR ''p''))),
      (''notes.txt'', File (replicate 100 (CHR ''n''))),
      (''archive.unknownext'', File (replicate 500 (CHR ''a'')))]"

definition scenario_orders :: "(string \<times> node) list list" where
  "scenario_orders =
     map (map (\<lambda>i. scenario_entries ! i))
       [[0, 1, 2], [0, 2, 1], [1, 0, 2], [1, 2, 0], [2, 0, 1], [2, 1, 0]]"

definition scenario_outcome :: "run \<Rightarrow> bool" where
  "scenario_outcome r \<longleftrightarrow>
     lookup (disk r) [''home'', ''Images'', ''photo.JPG''] = Some (File (replicate 2048 (CHR ''p''))) \<and>
     lookup (disk r) [''home'', ''Documents'', ''notes.txt''] = Some (File (replicate 100 (CHR ''n''))) \<and>
     lookup (disk r) [''home'', ''Others'', ''archive.unknownext''] = Some (File (replicate 500 (CHR ''a''))) \<and>
     lookup (disk r) [''home'', ''photo.JPG''] = None \<and>
     lookup (disk r) [''home'', ''notes.txt''] = None \<and>
     lookup (disk r) [''home'', ''archive.unknownext''] = None \<and>
     analytics_data r =
       [(''Images'', 1, 2048), (''Documents'', 1, 100), (''Videos'', 0, 0), (''Audio'', 0, 0),
        (''Archives'', 0, 0), (''Scripts'', 0, 0), (''Others'', 1, 500)] \<and>
     files_processed_count r = 3"

text \<open>The categories, in the order of the table.\<close>

definition categories :: "string list" where
  "categories = map fst FILE_TYPE_MAP"

text \<open>A run is quiet when every line it logged is at level info: no warning, no
  error.\<close>

definition quiet :: "run \<Rightarrow> bool" where
  "quiet r \<longleftrightarrow> list_all (\<lambda>(l, m). l = info) (log_lines r)"

text \<open>The local variables after a file has been analysed (lines 115 to 123), before
  its move.\<close>

definition analysed :: "string \<Rightarrow> nat \<Rightarrow> run \<Rightarrow> run" where
  "analysed item_name file_size r =
     r\<lparr>all_file_sizes := all_file_sizes r @ [file_size],
       analytics_data := record_file (category_of item_name) file_size (analytics_data r)\<rparr>"

text \<open>\<open>settled t rest fs\<close>: every entry of the directory \<open>t\<close> that the loop is
  not still to visit is a reserved name or a directory.\<close>

definition settled :: "path \<Rightarrow> string list \<Rightarrow> node \<Rightarrow> bool" where
  "settled t rest fs \<longleftrightarrow>
     isdir fs t \<and>
     (\<forall>y. stat fs (t @ [y]) \<noteq> None \<longrightarrow> y \<in> set rest \<or> y \<in> set reserved \<or> isdir fs (t @ [y]))"





text \<open>The regular files of a file system, each with its path and its contents: every
  file of the tree that its path leads to.\<close>

fun files :: "node \<Rightarrow> (path \<times> string) list" where
  "files (File c) = [([], c)]"
| "files (Dir es) = concat (map (\<lambda>(k, n). map (\<lambda>(p, c). (k # p, c)) (files n)) es)"
| "files Dangling = []"

definition regular_files :: "node \<Rightarrow> (path \<times> string) list" where
  "regular_files fs = filter (\<lambda>(p, c). lookup fs p = Some (File c)) (files fs)"



section \<open>Example directories\<close>

text \<open>A directory with two files and a subdirectory; one with a link that stays dangling; one where
  the destination of \<^verbatim>\<open>a.jpg\<close> is a directory that holds an entry \<^verbatim>\<open>a.jpg\<close>; one
  with a regular file named \<^verbatim>\<open>Images\<close> listed first, and one with it listed last; one
  where the destination of \<^verbatim>\<open>a.jpg\<close> is an existing regular file; one with a
  regular file named \<^verbatim>\<open>Videos\<close> and no video, and a file \<^verbatim>\<open>b.txt\<close> whose
  destination is a directory holding that name.\<close>

definition plain :: node where
  "plain = Dir [(''home'', Dir [(''a.jpg'', File ''abc''), (''b.txt'', File ''defgh''), (''sub'', Dir [])])]"

definition with_dangling :: node where
  "with_dangling =
     Dir [(''home'',
           Dir [(''a.jpg'', File ''abc''), (''lost.txt'', Dangling), (''b.txt'', File ''defgh'')])]"

definition held_name :: node where
  "held_name =
     Dir [(''home'',
           Dir [(''a.jpg'', File ''new''),
                (''Images'', Dir [(''a.jpg'', Dir [(''a.jpg'', File ''old'')])])])]"


definition late_folder :: node where
  "late_folder = Dir [(''home'', Dir [(''a.jpg'', File ''xy''), (''Images'', File ''abc'')])]"

definition occupied :: node where
  "occupied =
     Dir [(''home'', Dir [(''a.jpg'', File ''new''), (''Images'', Dir [(''a.jpg'', File ''old'')])])]"


section \<open>Symbolic links with a target\<close>

text \<open>
  The tree with symbolic links that lead somewhere. A link holds its target as written: a
  path from the root, or a path from the directory the link is in. Targets are lists of
  names (no \<^verbatim>\<open>.\<close> or \<^verbatim>\<open>..\<close> component; the empty relative target stands for
  \<^verbatim>\<open>.\<close>). \<open>lookup_l\<close>, \<open>attach_l\<close> and \<open>detach_l\<close> are the functions of the
  tree above: they follow no link.
\<close>

datatype target = Absolute path | Relative path

datatype linked = Regular string | Folder "(string \<times> linked) list" | Symlink target

fun lookup_l :: "linked \<Rightarrow> path \<Rightarrow> linked option" where
  "lookup_l n [] = Some n"
| "lookup_l (Folder es) (x # xs) = (case map_of es x of None \<Rightarrow> None | Some c \<Rightarrow> lookup_l c xs)"
| "lookup_l _ (x # xs) = None"

fun attach_l :: "linked \<Rightarrow> path \<Rightarrow> linked \<Rightarrow> linked option" where
  "attach_l (Folder es) [x] n = Some (Folder (AList.update x n es))"
| "attach_l (Folder es) (x # y # ys) n =
     (case map_of es x of
        None \<Rightarrow> None
      | Some c \<Rightarrow> (case attach_l c (y # ys) n of
                     None \<Rightarrow> None
                   | Some c' \<Rightarrow> Some (Folder (AList.update x c' es))))"
| "attach_l _ _ _ = None"

fun detach_l :: "linked \<Rightarrow> path \<Rightarrow> linked" where
  "detach_l (Folder es) [x] = Folder (AList.delete x es)"
| "detach_l (Folder es) (x # y # ys) =
     (case map_of es x of
        None \<Rightarrow> Folder es
      | Some c \<Rightarrow> Folder (AList.update x (detach_l c (y # ys)) es))"
| "detach_l n _ = n"

text \<open>
  Path resolution, as \<^verbatim>\<open>stat\<close> does it: \<open>resolve n fs cur rest\<close> walks the components
  \<open>rest\<close> from the directory at \<open>cur\<close> and gives the path, free of links, of what
  they lead to. A link met on the way, the last component included, is replaced by its
  target; \<open>n\<close> bounds the links followed, and \<open>None\<close> is the \<^verbatim>\<open>OSError\<close> of a
  missing entry, of a file used as a directory, or of too many links (Linux follows 40).
\<close>

fun resolve :: "nat \<Rightarrow> linked \<Rightarrow> path \<Rightarrow> path \<Rightarrow> path option" where
  "resolve n fs cur [] = Some cur"
| "resolve n fs cur (x # xs) =
     (case lookup_l fs (cur @ [x]) of
        None \<Rightarrow> None
      | Some (Regular c) \<Rightarrow> if xs = [] then Some (cur @ [x]) else None
      | Some (Folder es) \<Rightarrow> resolve n fs (cur @ [x]) xs
      | Some (Symlink t) \<Rightarrow>
          (case n of
             0 \<Rightarrow> None
           | Suc m \<Rightarrow>
               (case t of
                  Absolute p \<Rightarrow> resolve m fs [] (p @ xs)
                | Relative p \<Rightarrow> resolve m fs cur (p @ xs))))"

definition realpath :: "linked \<Rightarrow> path \<Rightarrow> path option" where
  "realpath fs p = resolve 40 fs [] p"

text \<open>Where the entry named by a path sits, as \<^verbatim>\<open>lstat\<close>, \<^verbatim>\<open>rename\<close> and
  \<^verbatim>\<open>mkdir\<close> see it: the directory is resolved, the last component is not followed.\<close>

definition place :: "linked \<Rightarrow> path \<Rightarrow> path option" where
  "place fs p =
     (if p = [] then Some []
      else (case realpath fs (butlast p) of
              None \<Rightarrow> None
            | Some d \<Rightarrow> (case lookup_l fs d of Some (Folder es) \<Rightarrow> Some (d @ [last p]) | _ \<Rightarrow> None)))"

definition isdir_l :: "linked \<Rightarrow> path \<Rightarrow> bool" where
  "isdir_l fs p =
     (case realpath fs p of
        None \<Rightarrow> False
      | Some q \<Rightarrow> (case lookup_l fs q of Some (Folder es) \<Rightarrow> True | _ \<Rightarrow> False))"

definition exists_l :: "linked \<Rightarrow> path \<Rightarrow> bool" where
  "exists_l fs p = (realpath fs p \<noteq> None)"

definition islink_l :: "linked \<Rightarrow> path \<Rightarrow> bool" where
  "islink_l fs p =
     (case place fs p of
        None \<Rightarrow> False
      | Some q \<Rightarrow> (case lookup_l fs q of Some (Symlink t) \<Rightarrow> True | _ \<Rightarrow> False))"

definition samefile_l :: "linked \<Rightarrow> path \<Rightarrow> path \<Rightarrow> bool" where
  "samefile_l fs p q =
     (case (realpath fs p, realpath fs q) of (Some a, Some b) \<Rightarrow> a = b | _ \<Rightarrow> False)"

definition getsize_l :: "linked \<Rightarrow> path \<Rightarrow> nat option" where
  "getsize_l fs p =
     (case realpath fs p of
        None \<Rightarrow> None
      | Some q \<Rightarrow>
          (case lookup_l fs q of
             Some (Regular c) \<Rightarrow> Some (length c)
           | Some (Folder es) \<Rightarrow> Some 0
           | _ \<Rightarrow> None))"

definition listdir_l :: "linked \<Rightarrow> path \<Rightarrow> string list option" where
  "listdir_l fs p =
     (case realpath fs p of
        None \<Rightarrow> None
      | Some q \<Rightarrow> (case lookup_l fs q of Some (Folder es) \<Rightarrow> Some (map fst es) | _ \<Rightarrow> None))"

text \<open>\<^verbatim>\<open>os.mkdir\<close>: the name must be free, a link of that name included.\<close>

definition mkdir_l :: "linked \<Rightarrow> path \<Rightarrow> linked option" where
  "mkdir_l fs p =
     (case place fs p of
        None \<Rightarrow> None
      | Some q \<Rightarrow>
          if q = [] then None
          else (case lookup_l fs q of None \<Rightarrow> attach_l fs q (Folder []) | Some n \<Rightarrow> None))"

text \<open>\<^verbatim>\<open>os.makedirs(p, exist_ok=True)\<close>, in the order of its source, on the path written
  last component first: the parent is made first when \<^verbatim>\<open>os.path.exists\<close> denies it,
  then \<^verbatim>\<open>os.mkdir\<close> is called, and its failure is accepted when the path is a
  directory, a link to one included.\<close>

fun makedirs_rev :: "linked \<Rightarrow> string list \<Rightarrow> linked option" where
  "makedirs_rev fs [] = (if isdir_l fs [] then Some fs else None)"
| "makedirs_rev fs (tail # head) =
     (case (if exists_l fs (rev head) then Some fs else makedirs_rev fs head) of
        None \<Rightarrow> None
      | Some fs1 \<Rightarrow>
          (case mkdir_l fs1 (rev (tail # head)) of
             Some fs2 \<Rightarrow> Some fs2
           | None \<Rightarrow> if isdir_l fs1 (rev (tail # head)) then Some fs1 else None))"

definition makedirs_l :: "linked \<Rightarrow> path \<Rightarrow> linked option" where
  "makedirs_l fs p = makedirs_rev fs (rev p)"

text \<open>\<^verbatim>\<open>os.rename\<close>: both directories are resolved, the entries themselves are not
  followed, so that a link is moved, and replaced, as a link. Two names of one entry are
  left as they are.\<close>

definition os_rename_l :: "linked \<Rightarrow> path \<Rightarrow> path \<Rightarrow> linked option" where
  "os_rename_l fs src dst =
     (case (place fs src, place fs dst) of
        (Some s, Some d) \<Rightarrow>
          (case lookup_l fs s of
             None \<Rightarrow> None
           | Some n \<Rightarrow>
               if s = d then Some fs
               else if s = [] \<or> d = [] then None
               else if prefix s d then None
               else (case lookup_l fs d of
                       None \<Rightarrow> attach_l (detach_l fs s) d n
                     | Some (Folder ds) \<Rightarrow>
                         (case n of
                            Folder es \<Rightarrow> if ds = [] then attach_l (detach_l fs s) d n else None
                          | _ \<Rightarrow> None)
                     | Some _ \<Rightarrow>
                         (case n of
                            Folder es \<Rightarrow> None
                          | _ \<Rightarrow> attach_l (detach_l fs s) d n)))
      | _ \<Rightarrow> None)"

text \<open>
  \<^verbatim>\<open>shutil.move(src, dst)\<close> for a source that is not a directory, which is what the
  loop of \<^verbatim>\<open>organize_directory\<close> hands it (directories, and links to them, are skipped
  before). When \<^verbatim>\<open>os.rename\<close> fails on such a source, the fallback of
  \<^verbatim>\<open>shutil.move\<close> (\<^verbatim>\<open>os.symlink\<close> for a link, \<^verbatim>\<open>copy2\<close> for a file) fails
  too, for the reason the rename did: the result is \<^verbatim>\<open>OSError\<close>. A directory as the
  source is outside this function: it is answered \<^verbatim>\<open>OSError\<close> when the rename fails.
\<close>

definition shutil_move_l :: "linked \<Rightarrow> path \<Rightarrow> path \<Rightarrow> move_error + linked" where
  "shutil_move_l fs src dst =
     (if isdir_l fs dst \<and> samefile_l fs src dst \<and> \<not> islink_l fs src then
        (case os_rename_l fs src dst of Some fs' \<Rightarrow> Inr fs' | None \<Rightarrow> Inl OSError)
      else
        let real_dst = (if isdir_l fs dst then dst @ basename src else dst) in
        if isdir_l fs dst \<and> exists_l fs real_dst then Inl ShutilError
        else
          (case os_rename_l fs src real_dst of
             Some fs' \<Rightarrow> Inr fs'
           | None \<Rightarrow> Inl OSError))"

section \<open>The loop over either file system\<close>

text \<open>The calls \<^verbatim>\<open>organize_directory\<close> makes into \<^verbatim>\<open>os\<close> and \<^verbatim>\<open>shutil\<close>, and
  its loop written over them: the definitions of \<open>process_item\<close> and
  \<open>organize_directory\<close> above, with the calls as a parameter.\<close>

record 'fs calls =
  call_listdir :: "'fs \<Rightarrow> path \<Rightarrow> string list option"
  call_isdir :: "'fs \<Rightarrow> path \<Rightarrow> bool"
  call_getsize :: "'fs \<Rightarrow> path \<Rightarrow> nat option"
  call_makedirs :: "'fs \<Rightarrow> path \<Rightarrow> 'fs option"
  call_move :: "'fs \<Rightarrow> path \<Rightarrow> path \<Rightarrow> move_error + 'fs"

definition process_item_on ::
    "'fs calls \<Rightarrow> path \<Rightarrow> bool \<Rightarrow> string \<Rightarrow> 'fs run_state \<Rightarrow> 'fs run_state" where
  "process_item_on os target_path dry_run item_name r =
     (let source_item_path = target_path @ [item_name] in
      if item_name \<in> set reserved then r
      else if call_isdir os (disk r) source_item_path then log_and_update (Skipping item_name) info r
      else
        (case call_getsize os (disk r) source_item_path of
           None \<Rightarrow> log_and_update (CouldNotAnalyze item_name) warning r
         | Some file_size \<Rightarrow>
             let file_ext = lower (snd (splitext item_name));
                 category = classify FILE_TYPE_MAP file_ext;
                 r1 = r\<lparr>all_file_sizes := all_file_sizes r @ [file_size],
                        analytics_data := record_file category file_size (analytics_data r)\<rparr>;
                 dest_folder_path = target_path @ [category];
                 final_dest_path = dest_folder_path @ [item_name]
             in if dry_run then
                  (log_and_update (WouldMove item_name category) info r1)
                    \<lparr>files_processed_count := files_processed_count r1 + 1\<rparr>
                else
                  (case call_makedirs os (disk r1) dest_folder_path of
                     None \<Rightarrow> log_and_update (ErrorMoving item_name) error r1
                   | Some fs1 \<Rightarrow>
                       (case call_move os fs1 source_item_path final_dest_path of
                          Inl ShutilError \<Rightarrow>
                            log_and_update (CouldNotMove item_name) warning (r1\<lparr>disk := fs1\<rparr>)
                        | Inl OSError \<Rightarrow>
                            log_and_update (ErrorMoving item_name) error (r1\<lparr>disk := fs1\<rparr>)
                        | Inr fs2 \<Rightarrow>
                            (log_and_update (Moved item_name category) info (r1\<lparr>disk := fs2\<rparr>))
                              \<lparr>last_move_actions :=
                                 last_move_actions r1 @ [(final_dest_path, source_item_path)],
                               files_processed_count := files_processed_count r1 + 1\<rparr>))))"

definition organize_directory_on ::
    "'fs calls \<Rightarrow> 'fs \<Rightarrow> (path \<times> path) list \<Rightarrow> path \<Rightarrow> bool \<Rightarrow> 'fs run_state" where
  "organize_directory_on os fs0 actions target_path dry_run =
     (let r0 = start_run fs0 actions target_path dry_run in
      case call_listdir os fs0 target_path of
        None \<Rightarrow> log_and_update Unexpected error r0
      | Some all_items \<Rightarrow>
          finish_run dry_run (fold (process_item_on os target_path dry_run) all_items r0))"

definition tree_calls :: "node calls" where
  "tree_calls =
     \<lparr>call_listdir = listdir, call_isdir = isdir, call_getsize = getsize,
      call_makedirs = makedirs, call_move = shutil_move\<rparr>"

definition link_calls :: "linked calls" where
  "link_calls =
     \<lparr>call_listdir = listdir_l, call_isdir = isdir_l, call_getsize = getsize_l,
      call_makedirs = makedirs_l, call_move = shutil_move_l\<rparr>"


definition link_onto_file :: linked where
  "link_onto_file =
     Folder [(''home'',
              Folder [(''a.jpg'', Regular ''abc''),
                      (''link.txt'', Symlink (Relative [''Images'', ''a.jpg''])),
                      (''Documents'', Folder [(''link.txt'', Regular ''old'')])])]"

definition link_to_self :: linked where
  "link_to_self =
     Folder [(''home'',
              Folder [(''a.jpg'', Regular ''abc''), (''Images'', Symlink (Relative []))])]"

text \<open>A file system without symbolic links, and the tree it is: \<open>as_tree\<close> forgets
  where a link leads, \<open>tree_run\<close> reads the state of a run on links as a state of a run
  on the tree.\<close>

fun as_tree :: "linked \<Rightarrow> node" where
  "as_tree (Regular c) = File c"
| "as_tree (Folder es) = Dir (map (\<lambda>(k, n). (k, as_tree n)) es)"
| "as_tree (Symlink t) = Dangling"


definition tree_run :: "linked run_state \<Rightarrow> run" where
  "tree_run r =
     \<lparr>disk = as_tree (disk r),
      last_move_actions = last_move_actions r,
      analytics_data = analytics_data r,
      files_processed_count = files_processed_count r,
      all_file_sizes = all_file_sizes r,
      log_lines = log_lines r\<rparr>"


section \<open>Paths and the library calls\<close>

lemma stat_Nil [simp]: "stat n [] = Some (shape n)"
  by (simp add: stat_def)

lemma stat_Dir_Cons [simp]:
  "stat (Dir es) (x # xs) = (case map_of es x of None \<Rightarrow> None | Some c \<Rightarrow> stat c xs)"
  by (simp add: stat_def split: option.splits)

lemma stat_File_Cons [simp]: "stat (File c) (x # xs) = None"
  by (simp add: stat_def)

lemma stat_Dangling_Cons [simp]: "stat Dangling (x # xs) = None"
  by (simp add: stat_def)

lemma shape_eq_File [simp]: "shape n = File c \<longleftrightarrow> n = File c"
  by (cases n) auto

lemma shape_eq_Dangling [simp]: "shape n = Dangling \<longleftrightarrow> n = Dangling"
  by (cases n) auto

lemma shape_eq_Dir [simp]: "shape n = Dir ds \<longleftrightarrow> ds = [] \<and> (\<exists>es. n = Dir es)"
  by (cases n) auto

lemma isdir_stat: "isdir fs p \<longleftrightarrow> stat fs p = Some (Dir [])"
  by (auto simp: isdir_def stat_def split: option.splits node.splits)


lemma stat_File: "stat fs p = Some (File c) \<longleftrightarrow> lookup fs p = Some (File c)"
  by (auto simp: stat_def)



lemma stat_append:
  "stat fs (p @ q) = (case lookup fs p of None \<Rightarrow> None | Some n \<Rightarrow> stat n q)"
proof (induction fs p rule: lookup.induct)
  case (1 n)
  then show ?case by simp
next
  case (2 es x xs)
  then show ?case by (simp split: option.splits)
qed simp_all

lemma stat_File_nonempty: "q \<noteq> [] \<Longrightarrow> stat (File c) q = None"
  by (cases q) auto

lemma stat_Dangling_nonempty: "q \<noteq> [] \<Longrightarrow> stat Dangling q = None"
  by (cases q) auto

lemma stat_detach:
  "p \<noteq> [] \<Longrightarrow> stat (detach fs p) q = (if prefix p q then None else stat fs q)"
proof (induction fs p arbitrary: q rule: detach.induct)
  case (1 es x)
  then show ?case
    by (cases q) (auto simp: delete_conv' split: option.splits)
next
  case (2 es x y ys)
  then show ?case
    by (cases q) (auto simp: update_conv' split: option.splits)
qed (auto simp: prefix_def stat_File_nonempty stat_Dangling_nonempty)

lemma stat_attach:
  "attach fs p n = Some fs' \<Longrightarrow>
   stat fs' q = (if prefix p q then stat n (drop (length p) q) else stat fs q)"
proof (induction fs p n arbitrary: q fs' rule: attach.induct)
  case (1 es x n)
  then show ?case
    by (cases q) (auto simp: update_conv' split: option.splits)
next
  case (2 es x y ys n)
  then show ?case
    by (cases q) (auto simp: update_conv' split: option.splits)
qed simp_all

lemma isdir_File [simp]: "\<not> isdir (File c) p"
  by (cases p) (auto simp: isdir_def)

lemma isdir_Dangling [simp]: "\<not> isdir Dangling p"
  by (cases p) (auto simp: isdir_def)

lemma isdir_Dir_Nil [simp]: "isdir (Dir es) []"
  by (simp add: isdir_def)

lemma isdir_Dir_Cons [simp]:
  "isdir (Dir es) (x # xs) = (case map_of es x of None \<Rightarrow> False | Some c \<Rightarrow> isdir c xs)"
  by (simp add: isdir_def split: option.splits)


lemma stat_mkchain: "stat (mkchain p) q = (if prefix q p then Some (Dir []) else None)"
proof (induction p arbitrary: q)
  case Nil
  then show ?case by (cases q) auto
next
  case (Cons x p)
  then show ?case by (cases q) auto
qed

lemma stat_makedirs:
  "makedirs fs p = Some fs' \<Longrightarrow>
   stat fs' q = (if stat fs q = None \<and> prefix q p then Some (Dir []) else stat fs q)"
proof (induction fs p arbitrary: q fs' rule: makedirs.induct)
  case (1 es)
  then show ?case by auto
next
  case (2 es x xs)
  then show ?case
    by (cases q) (auto simp: update_conv' stat_mkchain split: option.splits)
qed simp_all








section \<open>Classification is first match\<close>

lemma classify_miss:
  "\<forall>ce \<in> set m. e \<notin> set (snd ce) \<Longrightarrow> classify m e = ''Others''"
  by (induction m) auto

lemma classify_hit:
  "i < length m \<Longrightarrow> e \<in> set (snd (m ! i)) \<Longrightarrow> \<forall>j<i. e \<notin> set (snd (m ! j)) \<Longrightarrow>
   classify m e = fst (m ! i)"
proof (induction m arbitrary: i)
  case Nil
  then show ?case by simp
next
  case (Cons a m)
  obtain cat exts where a: "a = (cat, exts)" by (cases a)
  show ?case
  proof (cases i)
    case 0
    with Cons.prems a show ?thesis by simp
  next
    case (Suc k)
    with Cons.prems have "e \<notin> set (snd ((a # m) ! 0))" by blast
    with a have miss: "e \<notin> set exts" by simp
    from Suc Cons.prems have "k < length m" "e \<in> set (snd (m ! k))" by auto
    moreover from Suc Cons.prems have "\<forall>j<k. e \<notin> set (snd (m ! j))" by fastforce
    ultimately have "classify m e = fst (m ! k)" by (rule Cons.IH)
    with a miss Suc show ?thesis by simp
  qed
qed

text \<open>
  C4. For an extension held by some category's list, the classification loop yields the
  first category, in the iteration order of the table, whose list holds it; for an
  extension held by no list it yields \<^verbatim>\<open>"Others"\<close>. The table is any association list in
  dictionary order; \<^verbatim>\<open>organize_directory\<close> runs the loop on \<open>FILE_TYPE_MAP\<close> with
  the lowercased extension of the name.
\<close>

theorem classify_first_match:
  "(i < length m \<and> e \<in> set (snd (m ! i)) \<and> (\<forall>j<i. e \<notin> set (snd (m ! j)))
      \<longrightarrow> classify m e = fst (m ! i)) \<and>
   ((\<forall>ce \<in> set m. e \<notin> set (snd ce)) \<longrightarrow> classify m e = ''Others'')"
  using classify_hit[of i m e] classify_miss[of m e] by blast

theorem classify_first_match_witness:
  "(1::nat) < length FILE_TYPE_MAP \<and> ''.txt'' \<in> set (snd (FILE_TYPE_MAP ! 1)) \<and>
   ''.txt'' \<notin> set (snd (FILE_TYPE_MAP ! 0)) \<and>
   classify FILE_TYPE_MAP ''.txt'' = fst (FILE_TYPE_MAP ! 1) \<and>
   fst (FILE_TYPE_MAP ! 1) = ''Documents'' \<and>
   list_all (\<lambda>ce. ''.unknownext'' \<notin> set (snd ce)) FILE_TYPE_MAP \<and>
   classify FILE_TYPE_MAP ''.unknownext'' = ''Others''"
proof -
  have h1: "(1::nat) < length FILE_TYPE_MAP" by (simp add: FILE_TYPE_MAP_def)
  have h2: "''.txt'' \<in> set (snd (FILE_TYPE_MAP ! 1))" by (simp add: FILE_TYPE_MAP_def)
  have h3: "''.txt'' \<notin> set (snd (FILE_TYPE_MAP ! 0))" by (simp add: FILE_TYPE_MAP_def)
  have h3': "\<forall>j<1. ''.txt'' \<notin> set (snd (FILE_TYPE_MAP ! j))" using h3 by simp
  have h4: "list_all (\<lambda>ce. ''.unknownext'' \<notin> set (snd ce)) FILE_TYPE_MAP"
    by (simp add: FILE_TYPE_MAP_def)
  then have h4': "\<forall>ce \<in> set FILE_TYPE_MAP. ''.unknownext'' \<notin> set (snd ce)"
    by (simp add: list_all_iff)
  have h5: "fst (FILE_TYPE_MAP ! 1) = ''Documents''" by (simp add: FILE_TYPE_MAP_def)
  from classify_first_match[of 1 FILE_TYPE_MAP "''.txt''"] h1 h2 h3'
  have c1: "classify FILE_TYPE_MAP ''.txt'' = fst (FILE_TYPE_MAP ! 1)" by blast
  from classify_first_match[of 0 FILE_TYPE_MAP "''.unknownext''"] h4'
  have c2: "classify FILE_TYPE_MAP ''.unknownext'' = ''Others''" by blast
  from h1 h2 h3 h4 h5 c1 c2 show ?thesis by blast
qed

section \<open>What a dry run leaves alone\<close>

lemma process_item_dry_frame:
  "disk (process_item t True x r) = disk r \<and>
   last_move_actions (process_item t True x r) = last_move_actions r"
  by (simp add: process_item_def log_and_update_def Let_def split: option.splits)

lemma fold_dry_frame:
  "disk (fold (process_item t True) xs r) = disk r \<and>
   last_move_actions (fold (process_item t True) xs r) = last_move_actions r"
  by (induction xs arbitrary: r) (simp_all add: process_item_dry_frame)

lemma finish_run_frame [simp]:
  "disk (finish_run d r) = disk r"
  "last_move_actions (finish_run d r) = last_move_actions r"
  "analytics_data (finish_run d r) = analytics_data r"
  "all_file_sizes (finish_run d r) = all_file_sizes r"
  "files_processed_count (finish_run d r) = files_processed_count r"
  by (simp_all add: finish_run_def log_and_update_def)

lemma organize_dry_frame:
  "disk (organize_directory fs0 acts t True) = fs0 \<and>
   last_move_actions (organize_directory fs0 acts t True) = acts"
  by (simp add: organize_directory_def start_run_def log_and_update_def fold_dry_frame Let_def
      split: option.splits)

lemma dry_runs_id: "dry_runs ts (fs0, acts) = (fs0, acts)"
  by (induction ts) (simp_all add: dry_runs_def organize_dry_frame Let_def)

lemma moves_logged_append [simp]:
  "moves_logged t (xs @ ys) = moves_logged t xs @ moves_logged t ys"
  by (induction t xs rule: moves_logged.induct) simp_all

lemma log_lines_finish_run:
  "log_lines (finish_run d r) =
     log_lines r @ (if files_processed_count r = 0 then [(info, NoNewFiles)] else []) @
     [(info, Complete d)]"
  by (simp add: finish_run_def log_and_update_def)

lemma process_item_real_actions:
  "last_move_actions r = moves_logged t (log_lines r) \<Longrightarrow>
   last_move_actions (process_item t False x r) = moves_logged t (log_lines (process_item t False x r))"
  by (simp add: process_item_def log_and_update_def Let_def
      split: option.splits sum.splits move_error.splits)

lemma fold_real_actions:
  "last_move_actions r = moves_logged t (log_lines r) \<Longrightarrow>
   last_move_actions (fold (process_item t False) xs r) =
     moves_logged t (log_lines (fold (process_item t False) xs r))"
  by (induction xs arbitrary: r) (simp_all add: process_item_real_actions)

lemma organize_real_actions:
  "last_move_actions (organize_directory fs0 acts t False) =
     moves_logged t (log_lines (organize_directory fs0 acts t False))"
proof (cases "listdir fs0 t")
  case None
  then show ?thesis
    by (simp add: organize_directory_def start_run_def log_and_update_def)
next
  case (Some xs)
  have "last_move_actions (start_run fs0 acts t False) = moves_logged t (log_lines (start_run fs0 acts t False))"
    by (simp add: start_run_def)
  from fold_real_actions[OF this, of xs] Some show ?thesis
    by (simp add: organize_directory_def log_lines_finish_run)
qed

text \<open>
  C10. A dry run of \<^verbatim>\<open>organize_directory\<close> leaves \<^verbatim>\<open>last_move_actions\<close> as it
  found it, and so does any sequence of dry runs; a real run clears the list at its start
  and appends one pair for each move it reports as done, so that the list it leaves holds
  exactly the moves of its own log.
\<close>

theorem dry_run_keeps_actions:
  "last_move_actions (organize_directory fs0 actions target_path True) = actions \<and>
   snd (dry_runs targets (fs0, actions)) = actions \<and>
   last_move_actions (organize_directory fs0 actions target_path False) =
     moves_logged target_path (log_lines (organize_directory fs0 actions target_path False))"
  using organize_dry_frame[of fs0 actions target_path] dry_runs_id[of targets fs0 actions]
    organize_real_actions[of fs0 actions target_path]
  by simp

section \<open>The snapshot adds up\<close>

lemma initial_analytics_eq:
  "initial_analytics =
     [(''Images'', 0, 0), (''Documents'', 0, 0), (''Videos'', 0, 0), (''Audio'', 0, 0),
      (''Archives'', 0, 0), (''Scripts'', 0, 0), (''Others'', 0, 0)]"
  by (simp add: initial_analytics_def FILE_TYPE_MAP_def)

lemma classify_in_keys: "classify m e \<in> insert ''Others'' (fst ` set m)"
proof (induction m)
  case Nil
  then show ?case by simp
next
  case (Cons a m)
  obtain cat exts where "a = (cat, exts)" by (cases a)
  with Cons show ?case by (cases "e \<in> set exts") auto
qed

lemma category_known: "classify FILE_TYPE_MAP e \<in> fst ` set initial_analytics"
proof -
  have "insert ''Others'' (fst ` set FILE_TYPE_MAP) = fst ` set initial_analytics"
    by (simp add: initial_analytics_eq) (simp add: FILE_TYPE_MAP_def insert_commute)
  with classify_in_keys[of FILE_TYPE_MAP e] show ?thesis by simp
qed

lemma keys_record_file: "fst ` set (record_file c sz a) = fst ` set a"
  by (simp add: record_file_def dom_map_entry)

lemma totals_record_file:
  "c \<in> fst ` set a \<Longrightarrow>
   count_total (record_file c sz a) = count_total a + 1 \<and>
   size_total (record_file c sz a) = size_total a + sz"
  by (induction a) (auto simp: record_file_def count_total_def size_total_def)

lemma consistent_log [simp]: "consistent (log_and_update m l r) = consistent r"
  by (simp add: consistent_def log_and_update_def)

lemma consistent_analysed:
  assumes "consistent r"
  shows "consistent (r\<lparr>all_file_sizes := all_file_sizes r @ [sz],
                       analytics_data := record_file (classify FILE_TYPE_MAP e) sz (analytics_data r)\<rparr>)"
proof -
  from assms have "classify FILE_TYPE_MAP e \<in> fst ` set (analytics_data r)"
    using category_known[of e] by (simp add: consistent_def)
  from totals_record_file[OF this, of sz] assms show ?thesis
    by (simp add: consistent_def keys_record_file)
qed

lemma consistent_update [simp]:
  "consistent (r\<lparr>disk := d\<rparr>) = consistent r"
  "consistent (r\<lparr>files_processed_count := n\<rparr>) = consistent r"
  "consistent (r\<lparr>last_move_actions := a\<rparr>) = consistent r"
  by (simp_all add: consistent_def)

lemma consistent_process_item:
  assumes "consistent r"
  shows "consistent (process_item t d x r)"
proof -
  have *: "\<And>sz. consistent (r\<lparr>all_file_sizes := all_file_sizes r @ [sz],
      analytics_data := record_file (classify FILE_TYPE_MAP (lower (snd (splitext x)))) sz (analytics_data r)\<rparr>)"
    by (rule consistent_analysed[OF assms])
  show ?thesis
    using assms *
    by (simp add: process_item_def Let_def split: option.splits sum.splits move_error.splits)
qed

lemma consistent_fold:
  "consistent r \<Longrightarrow> consistent (fold (process_item t d) xs r)"
  by (induction xs arbitrary: r) (simp_all add: consistent_process_item)

lemma consistent_start: "consistent (start_run fs0 acts t d)"
  by (simp add: consistent_def start_run_def count_total_def size_total_def initial_analytics_eq)

lemma consistent_finish [simp]: "consistent (finish_run d r) = consistent r"
  by (simp add: finish_run_def)

lemma consistent_organize: "consistent (organize_directory fs0 acts t d)"
  by (simp add: organize_directory_def Let_def consistent_start consistent_fold
      split: option.splits)

text \<open>
  C9. After every run of \<^verbatim>\<open>organize_directory\<close>, dry or real, whether or not the
  listing succeeded, the counts of the snapshot summed over all categories equal the length
  of the flat size list, and the sizes summed over all categories equal the sum of that
  list.
\<close>

theorem snapshot_totals:
  "count_total (analytics_data (organize_directory fs0 actions target_path dry_run)) =
     length (all_file_sizes (organize_directory fs0 actions target_path dry_run)) \<and>
   size_total (analytics_data (organize_directory fs0 actions target_path dry_run)) =
     sum_list (all_file_sizes (organize_directory fs0 actions target_path dry_run))"
  using consistent_organize[of fs0 actions target_path dry_run]
  by (simp add: consistent_def)

section \<open>A listing that fails\<close>

text \<open>
  C7, as amended. When \<^verbatim>\<open>os.listdir\<close> fails, the run logs its start line and one
  error line, its snapshot is empty (every count and size zero, no sizes listed), its
  processed count is zero and the file system is untouched. \<^verbatim>\<open>last_move_actions\<close> is
  kept by a dry run and is empty after a real run, which clears it before the listing.
\<close>

theorem listing_failure:
  assumes "listdir fs0 target_path = None"
  shows "organize_directory fs0 actions target_path dry_run =
     \<lparr>disk = fs0,
      last_move_actions = (if dry_run then actions else []),
      analytics_data =
        [(''Images'', 0, 0), (''Documents'', 0, 0), (''Videos'', 0, 0), (''Audio'', 0, 0),
         (''Archives'', 0, 0), (''Scripts'', 0, 0), (''Others'', 0, 0)],
      files_processed_count = 0,
      all_file_sizes = [],
      log_lines = [(info, Starting dry_run target_path), (error, Unexpected)]\<rparr>"
  using assms
  by (simp add: organize_directory_def start_run_def log_and_update_def initial_analytics_eq)

theorem listing_failure_witness:
  "listdir (Dir []) [''gone''] = None \<and>
   organize_directory (Dir []) [([''d'', ''Images'', ''a.jpg''], [''d'', ''a.jpg''])] [''gone''] True =
     \<lparr>disk = Dir [],
      last_move_actions = [([''d'', ''Images'', ''a.jpg''], [''d'', ''a.jpg''])],
      analytics_data =
        [(''Images'', 0, 0), (''Documents'', 0, 0), (''Videos'', 0, 0), (''Audio'', 0, 0),
         (''Archives'', 0, 0), (''Scripts'', 0, 0), (''Others'', 0, 0)],
      files_processed_count = 0,
      all_file_sizes = [],
      log_lines = [(info, Starting True [''gone'']), (error, Unexpected)]\<rparr>"
proof -
  have h: "listdir (Dir []) [''gone''] = None" by (simp add: listdir_def)
  from listing_failure[OF h, of "[([''d'', ''Images'', ''a.jpg''], [''d'', ''a.jpg''])]" True] h
  show ?thesis by simp
qed

text \<open>A real run on a missing directory empties a non-empty action log: the log is not
  unchanged.\<close>

theorem listing_failure_clears_actions:
  "listdir (Dir []) [''gone''] = None \<and>
   last_move_actions
     (organize_directory (Dir []) [([''d'', ''Images'', ''a.jpg''], [''d'', ''a.jpg''])] [''gone''] False)
   \<noteq> [([''d'', ''Images'', ''a.jpg''], [''d'', ''a.jpg''])]"
  by (simp add: listdir_def organize_directory_def start_run_def log_and_update_def)

section \<open>The scenario of the specification\<close>

lemma category_photo: "category_of ''photo.JPG'' = ''Images''"
  by (simp add: category_of_def splitext_def lower_char_def FILE_TYPE_MAP_def Let_def)

lemma category_notes: "category_of ''notes.txt'' = ''Documents''"
  by (simp add: category_of_def splitext_def lower_char_def FILE_TYPE_MAP_def Let_def)

lemma category_archive: "category_of ''archive.unknownext'' = ''Others''"
  by (simp add: category_of_def splitext_def lower_char_def FILE_TYPE_MAP_def Let_def)

lemmas run_eval =
  process_item_def reserved_def isdir_def getsize_def category_of_def[symmetric]
  record_file_def log_and_update_def shutil_move_def os_rename_def exists_def basename_def
  dirname_def finish_run_def Let_def

text \<open>
  C8. On the directory holding \<^verbatim>\<open>photo.JPG\<close> (2048 bytes), \<^verbatim>\<open>notes.txt\<close> (100 bytes)
  and \<^verbatim>\<open>archive.unknownext\<close> (500 bytes), a real run moves them into \<^verbatim>\<open>Images\<close>,
  \<^verbatim>\<open>Documents\<close> and \<^verbatim>\<open>Others\<close>, counts one file of 2048, 100 and 500 bytes in
  these categories and none elsewhere, and processes three files. The first part gives the
  whole result for the listing order of the scenario, the second the outcome for each of
  the six orders a listing can have.
\<close>

theorem scenario_run:
  "organize_directory scenario actions [''home''] False =
     \<lparr>disk =
        Dir [(''home'',
              Dir [(''Images'', Dir [(''photo.JPG'', File (replicate 2048 (CHR ''p'')))]),
                   (''Documents'', Dir [(''notes.txt'', File (replicate 100 (CHR ''n'')))]),
                   (''Others'', Dir [(''archive.unknownext'', File (replicate 500 (CHR ''a'')))])])],
      last_move_actions =
        [([''home'', ''Images'', ''photo.JPG''], [''home'', ''photo.JPG'']),
         ([''home'', ''Documents'', ''notes.txt''], [''home'', ''notes.txt'']),
         ([''home'', ''Others'', ''archive.unknownext''], [''home'', ''archive.unknownext''])],
      analytics_data =
        [(''Images'', 1, 2048), (''Documents'', 1, 100), (''Videos'', 0, 0), (''Audio'', 0, 0),
         (''Archives'', 0, 0), (''Scripts'', 0, 0), (''Others'', 1, 500)],
      files_processed_count = 3,
      all_file_sizes = [2048, 100, 500],
      log_lines =
        [(info, Starting False [''home'']),
         (info, Moved ''photo.JPG'' ''Images''),
         (info, Moved ''notes.txt'' ''Documents''),
         (info, Moved ''archive.unknownext'' ''Others''),
         (info, Complete False)]\<rparr> \<and>
   list_all
     (\<lambda>es. scenario_outcome
        (organize_directory (Dir [(''home'', Dir es)]) actions [''home''] False))
     scenario_orders"
proof -
  have one: "organize_directory scenario actions [''home''] False =
     \<lparr>disk =
        Dir [(''home'',
              Dir [(''Images'', Dir [(''photo.JPG'', File (replicate 2048 (CHR ''p'')))]),
                   (''Documents'', Dir [(''notes.txt'', File (replicate 100 (CHR ''n'')))]),
                   (''Others'', Dir [(''archive.unknownext'', File (replicate 500 (CHR ''a'')))])])],
      last_move_actions =
        [([''home'', ''Images'', ''photo.JPG''], [''home'', ''photo.JPG'']),
         ([''home'', ''Documents'', ''notes.txt''], [''home'', ''notes.txt'']),
         ([''home'', ''Others'', ''archive.unknownext''], [''home'', ''archive.unknownext''])],
      analytics_data =
        [(''Images'', 1, 2048), (''Documents'', 1, 100), (''Videos'', 0, 0), (''Audio'', 0, 0),
         (''Archives'', 0, 0), (''Scripts'', 0, 0), (''Others'', 1, 500)],
      files_processed_count = 3,
      all_file_sizes = [2048, 100, 500],
      log_lines =
        [(info, Starting False [''home'']),
         (info, Moved ''photo.JPG'' ''Images''),
         (info, Moved ''notes.txt'' ''Documents''),
         (info, Moved ''archive.unknownext'' ''Others''),
         (info, Complete False)]\<rparr>"
    apply (simp add: organize_directory_def scenario_def listdir_def start_run_def
        initial_analytics_eq)
    apply (simp add: run_eval category_photo category_notes category_archive)
    done
  have every: "list_all
     (\<lambda>es. scenario_outcome
        (organize_directory (Dir [(''home'', Dir es)]) actions [''home''] False))
     scenario_orders"
    apply (simp add: scenario_orders_def scenario_entries_def organize_directory_def listdir_def
        start_run_def initial_analytics_eq)
    apply (simp add: scenario_outcome_def run_eval category_photo category_notes
        category_archive)
    done
  from one every show ?thesis by (rule conjI)
qed

section \<open>What a move changes\<close>

lemma stat_os_rename:
  assumes "os_rename fs src dst = Some fs'" and "\<not> prefix dst q"
  shows "stat fs' q = (if src \<noteq> dst \<and> prefix src q then None else stat fs q)"
proof (cases "src = dst")
  case True
  with assms show ?thesis by (simp add: os_rename_def split: option.splits)
next
  case False
  from assms(1) False obtain n where ne: "src \<noteq> []" and at: "attach (detach fs src) dst n = Some fs'"
    by (auto simp: os_rename_def split: option.splits if_splits node.splits)
  from stat_attach[OF at, of q] assms(2) stat_detach[OF ne, of fs q] False
  show ?thesis by simp
qed

lemma prefix_real_dst:
  "\<not> prefix dst q \<Longrightarrow> \<not> prefix (dst @ b) q"
  by (auto simp: prefix_def)

lemma stat_shutil_move:
  assumes "shutil_move fs src dst = Inr fs'" and "\<not> prefix dst q"
  shows "(prefix src q \<longrightarrow> stat fs' q = None) \<and>
         (\<not> prefix src q \<longrightarrow>
            stat fs' q = stat fs q \<or> (stat fs q = None \<and> stat fs' q = Some (Dir [])))"
proof (cases "isdir fs dst \<and> src = dst")
  case True
  with assms show ?thesis by (simp add: shutil_move_def)
next
  case False
  define rd where "rd = (if isdir fs dst then dst @ basename src else dst)"
  have nrd: "\<not> prefix rd q"
    using assms(2) by (simp add: rd_def prefix_real_dst)
  show ?thesis
  proof (cases "os_rename fs src rd")
    case (Some fs2)
    with assms(1) False have "fs2 = fs'"
      by (simp add: shutil_move_def rd_def Let_def split: if_splits)
    with Some have ren: "os_rename fs src rd = Some fs'" by simp
    have "src = rd \<Longrightarrow> \<not> prefix src q" using nrd by simp
    with stat_os_rename[OF ren nrd] show ?thesis by auto
  next
    case None
    with assms(1) False obtain es fs1 where
      src: "lookup fs src = Some (Dir es)" and np: "\<not> prefix src dst"
      and mk: "makedirs fs (dirname rd) = Some fs1"
      and at: "attach (detach fs1 src) rd (Dir es) = Some fs'"
      by (auto simp: shutil_move_def rd_def Let_def split: if_splits option.splits node.splits)
    from np have ne: "src \<noteq> []" by auto
    from stat_attach[OF at, of q] nrd stat_detach[OF ne, of fs1 q] stat_makedirs[OF mk, of q]
    show ?thesis by auto
  qed
qed

lemma stat_makedirs_weak:
  "makedirs fs p = Some fs' \<Longrightarrow>
   stat fs' q = stat fs q \<or> (stat fs q = None \<and> stat fs' q = Some (Dir []))"
  by (simp add: stat_makedirs)

lemma process_item_real_outcome:
  "disk (process_item t False x r) = disk r \<or>
   (\<exists>fs1. makedirs (disk r) (t @ [category_of x]) = Some fs1 \<and>
      (disk (process_item t False x r) = fs1 \<or>
       shutil_move fs1 (t @ [x]) (t @ [category_of x, x]) = Inr (disk (process_item t False x r))))"
  by (simp add: process_item_def category_of_def log_and_update_def Let_def
      split: option.splits sum.splits move_error.splits)

lemma process_item_real_disk:
  assumes "\<not> prefix (t @ [category_of x, x]) q"
  shows "stat (disk (process_item t False x r)) q = stat (disk r) q \<or>
         (stat (disk r) q = None \<and> stat (disk (process_item t False x r)) q = Some (Dir [])) \<or>
         (prefix (t @ [x]) q \<and> stat (disk (process_item t False x r)) q = None)"
proof -
  let ?d = "disk (process_item t False x r)"
  from process_item_real_outcome[of t x r] consider
      (same) "?d = disk r"
    | (made) "makedirs (disk r) (t @ [category_of x]) = Some ?d"
    | (moved) fs1 where "makedirs (disk r) (t @ [category_of x]) = Some fs1"
        "shutil_move fs1 (t @ [x]) (t @ [category_of x, x]) = Inr ?d"
    by blast
  then show ?thesis
  proof cases
    case same
    then show ?thesis by simp
  next
    case made
    from stat_makedirs_weak[OF this, of q] show ?thesis by blast
  next
    case moved
    note mk = stat_makedirs_weak[OF moved(1), of q]
    note mv = stat_shutil_move[OF moved(2) assms]
    show ?thesis
    proof (cases "prefix (t @ [x]) q")
      case True
      with mv show ?thesis by blast
    next
      case False
      with mv have "stat ?d q = stat fs1 q \<or> (stat fs1 q = None \<and> stat ?d q = Some (Dir []))"
        by blast
      with mk show ?thesis by auto
    qed
  qed
qed

lemma process_item_real_sibling:
  assumes "x \<noteq> y" and "stat (disk r) (t @ [y]) \<noteq> None"
  shows "stat (disk (process_item t False x r)) (t @ [y]) = stat (disk r) (t @ [y])"
  using process_item_real_disk[of t x "t @ [y]" r] assms by auto



lemma listed_present:
  assumes "listdir fs t = Some xs" and "y \<in> set xs"
  shows "stat fs (t @ [y]) \<noteq> None"
proof -
  from assms(1) obtain es where es: "lookup fs t = Some (Dir es)" and xs: "xs = map fst es"
    by (auto simp: listdir_def split: option.splits node.splits)
  from assms(2) xs obtain n where "map_of es y = Some n"
    by (metis (no_types, opaque_lifting) domD dom_map_of_conv_image_fst list.set_map)
  with es show ?thesis by (simp add: stat_append)
qed


section \<open>Runs on the example directories\<close>

text \<open>A capital extension, written with KELVIN SIGN for the letter K, is lowered to the
  extension of the table.\<close>

lemma category_kelvin:
  "category_of (''clip.m'' @ [CHR 0xE2, CHR 0x84, CHR 0xAA] @ ''v'') = ''Videos''"
  by (simp add: category_of_def splitext_def lower_char_def FILE_TYPE_MAP_def Let_def)

lemma category_a_jpg: "category_of ''a.jpg'' = ''Images''"
  by (simp add: category_of_def splitext_def lower_char_def FILE_TYPE_MAP_def Let_def)

lemma category_b_txt: "category_of ''b.txt'' = ''Documents''"
  by (simp add: category_of_def splitext_def lower_char_def FILE_TYPE_MAP_def Let_def)

lemma category_Images: "category_of ''Images'' = ''Others''"
  by (simp add: category_of_def splitext_def lower_char_def FILE_TYPE_MAP_def Let_def)


lemma plain_run:
  "organize_directory plain [] [''home''] False =
     \<lparr>disk = Dir [(''home'', Dir [(''sub'', Dir []), (''Images'', Dir [(''a.jpg'', File ''abc'')]),
                                  (''Documents'', Dir [(''b.txt'', File ''defgh'')])])],
      last_move_actions =
        [([''home'', ''Images'', ''a.jpg''], [''home'', ''a.jpg'']),
         ([''home'', ''Documents'', ''b.txt''], [''home'', ''b.txt''])],
      analytics_data =
        [(''Images'', 1, 3), (''Documents'', 1, 5), (''Videos'', 0, 0), (''Audio'', 0, 0),
         (''Archives'', 0, 0), (''Scripts'', 0, 0), (''Others'', 0, 0)],
      files_processed_count = 2,
      all_file_sizes = [3, 5],
      log_lines =
        [(info, Starting False [''home'']), (info, Moved ''a.jpg'' ''Images''),
         (info, Moved ''b.txt'' ''Documents''), (info, Skipping ''sub''), (info, Complete False)]\<rparr>"
  apply (simp add: organize_directory_def plain_def listdir_def start_run_def initial_analytics_eq)
  apply (simp add: run_eval category_a_jpg category_b_txt)
  done

lemma with_dangling_run:
  "organize_directory with_dangling [] [''home''] False =
     \<lparr>disk = Dir [(''home'', Dir [(''lost.txt'', Dangling),
                                  (''Images'', Dir [(''a.jpg'', File ''abc'')]),
                                  (''Documents'', Dir [(''b.txt'', File ''defgh'')])])],
      last_move_actions =
        [([''home'', ''Images'', ''a.jpg''], [''home'', ''a.jpg'']),
         ([''home'', ''Documents'', ''b.txt''], [''home'', ''b.txt''])],
      analytics_data =
        [(''Images'', 1, 3), (''Documents'', 1, 5), (''Videos'', 0, 0), (''Audio'', 0, 0),
         (''Archives'', 0, 0), (''Scripts'', 0, 0), (''Others'', 0, 0)],
      files_processed_count = 2,
      all_file_sizes = [3, 5],
      log_lines =
        [(info, Starting False [''home'']), (info, Moved ''a.jpg'' ''Images''),
         (warning, CouldNotAnalyze ''lost.txt''), (info, Moved ''b.txt'' ''Documents''),
         (info, Complete False)]\<rparr>"
  apply (simp add: organize_directory_def with_dangling_def listdir_def start_run_def initial_analytics_eq)
  apply (simp add: run_eval category_a_jpg category_b_txt)
  done

lemma with_dangling_again:
  "log_lines (organize_directory
     (Dir [(''home'', Dir [(''lost.txt'', Dangling),
                           (''Images'', Dir [(''a.jpg'', File ''abc'')]),
                           (''Documents'', Dir [(''b.txt'', File ''defgh'')])])])
     [([''home'', ''Images'', ''a.jpg''], [''home'', ''a.jpg'']),
      ([''home'', ''Documents'', ''b.txt''], [''home'', ''b.txt''])] [''home''] False) =
     [(info, Starting False [''home'']), (warning, CouldNotAnalyze ''lost.txt''),
      (info, Skipping ''Images''), (info, Skipping ''Documents''), (info, NoNewFiles),
      (info, Complete False)]"
  apply (simp add: organize_directory_def listdir_def start_run_def initial_analytics_eq)
  apply (simp add: run_eval)
  done

lemma late_folder_run:
  "organize_directory late_folder [] [''home''] False =
     \<lparr>disk = Dir [(''home'', Dir [(''a.jpg'', File ''xy''),
                                  (''Others'', Dir [(''Images'', File ''abc'')])])],
      last_move_actions = [([''home'', ''Others'', ''Images''], [''home'', ''Images''])],
      analytics_data =
        [(''Images'', 1, 2), (''Documents'', 0, 0), (''Videos'', 0, 0), (''Audio'', 0, 0),
         (''Archives'', 0, 0), (''Scripts'', 0, 0), (''Others'', 1, 3)],
      files_processed_count = 1,
      all_file_sizes = [2, 3],
      log_lines =
        [(info, Starting False [''home'']), (error, ErrorMoving ''a.jpg''),
         (info, Moved ''Images'' ''Others''), (info, Complete False)]\<rparr>"
  apply (simp add: organize_directory_def late_folder_def listdir_def start_run_def initial_analytics_eq)
  apply (simp add: run_eval category_a_jpg category_Images)
  done

lemma late_folder_again:
  "organize_directory
     (Dir [(''home'', Dir [(''a.jpg'', File ''xy''), (''Others'', Dir [(''Images'', File ''abc'')])])])
     [([''home'', ''Others'', ''Images''], [''home'', ''Images''])] [''home''] False =
     \<lparr>disk = Dir [(''home'', Dir [(''Others'', Dir [(''Images'', File ''abc'')]),
                                  (''Images'', Dir [(''a.jpg'', File ''xy'')])])],
      last_move_actions = [([''home'', ''Images'', ''a.jpg''], [''home'', ''a.jpg''])],
      analytics_data =
        [(''Images'', 1, 2), (''Documents'', 0, 0), (''Videos'', 0, 0), (''Audio'', 0, 0),
         (''Archives'', 0, 0), (''Scripts'', 0, 0), (''Others'', 0, 0)],
      files_processed_count = 1,
      all_file_sizes = [2],
      log_lines =
        [(info, Starting False [''home'']), (info, Moved ''a.jpg'' ''Images''),
         (info, Skipping ''Others''), (info, Complete False)]\<rparr>"
  apply (simp add: organize_directory_def listdir_def start_run_def initial_analytics_eq)
  apply (simp add: run_eval category_a_jpg)
  done



lemma occupied_run:
  "organize_directory occupied [] [''home''] False =
     \<lparr>disk = Dir [(''home'', Dir [(''Images'', Dir [(''a.jpg'', File ''new'')])])],
      last_move_actions = [([''home'', ''Images'', ''a.jpg''], [''home'', ''a.jpg''])],
      analytics_data =
        [(''Images'', 1, 3), (''Documents'', 0, 0), (''Videos'', 0, 0), (''Audio'', 0, 0),
         (''Archives'', 0, 0), (''Scripts'', 0, 0), (''Others'', 0, 0)],
      files_processed_count = 1,
      all_file_sizes = [3],
      log_lines =
        [(info, Starting False [''home'']), (info, Moved ''a.jpg'' ''Images''),
         (info, Skipping ''Images''), (info, Complete False)]\<rparr>"
  apply (simp add: organize_directory_def occupied_def listdir_def start_run_def initial_analytics_eq)
  apply (simp add: run_eval category_a_jpg)
  done


section \<open>An entry whose size cannot be read\<close>

lemma process_item_dry_disk [simp]: "disk (process_item t True x r) = disk r"
  by (simp add: process_item_dry_frame)

lemma fold_sibling:
  assumes "y \<notin> set xs" and "stat (disk r) (t @ [y]) \<noteq> None"
  shows "stat (disk (fold (process_item t d) xs r)) (t @ [y]) = stat (disk r) (t @ [y])"
  using assms
proof (induction xs arbitrary: r)
  case Nil
  then show ?case by simp
next
  case (Cons x xs)
  from Cons.prems have xy: "x \<noteq> y" by auto
  have step: "stat (disk (process_item t d x r)) (t @ [y]) = stat (disk r) (t @ [y])"
  proof (cases d)
    case True
    then show ?thesis by simp
  next
    case False
    with process_item_real_sibling[OF xy Cons.prems(2)] show ?thesis by simp
  qed
  with Cons.IH[of "process_item t d x r"] Cons.prems show ?case by simp
qed

lemma process_item_unreadable:
  assumes "item \<notin> set reserved" and "getsize (disk r) (t @ [item]) = None"
  shows "process_item t d item r = r\<lparr>log_lines := log_lines r @ [(warning, CouldNotAnalyze item)]\<rparr>"
proof -
  from assms(2) have "\<not> isdir (disk r) (t @ [item])"
    by (auto simp: getsize_def isdir_def split: option.splits node.splits)
  with assms show ?thesis
    by (simp add: process_item_def log_and_update_def)
qed

lemma last_log_finish: "last (log_lines (finish_run d r)) = (info, Complete d)"
  by (simp add: log_lines_finish_run)

text \<open>C6. When the loop reaches an entry on which \<^verbatim>\<open>os.path.getsize\<close> raises, the
  entry is logged at level warning and nothing else changes: not the file system, not the
  action log, not the snapshot (per-category totals and size list), not the processed
  count. The loop goes on with the entries after it, and the run ends with its completion
  line. The entry is any non-reserved name of the listing; \<open>r\<close> is the state of the
  run when the loop reaches it, after the entries before it have been processed, and the
  size is asked of the file system of that state. The run is dry or real.\<close>

theorem size_failure_skips:
  assumes "listdir fs0 target_path = Some (before @ item # after)"
    and "item \<notin> set reserved"
    and "r = fold (process_item target_path dry_run) before (start_run fs0 actions target_path dry_run)"
    and "getsize (disk r) (target_path @ [item]) = None"
  shows "process_item target_path dry_run item r =
           r\<lparr>log_lines := log_lines r @ [(warning, CouldNotAnalyze item)]\<rparr> \<and>
         organize_directory fs0 actions target_path dry_run =
           finish_run dry_run
             (fold (process_item target_path dry_run) after
                (r\<lparr>log_lines := log_lines r @ [(warning, CouldNotAnalyze item)]\<rparr>)) \<and>
         last (log_lines (organize_directory fs0 actions target_path dry_run)) = (info, Complete dry_run)"
proof -
  from process_item_unreadable[OF assms(2,4)]
  have step: "process_item target_path dry_run item r =
           r\<lparr>log_lines := log_lines r @ [(warning, CouldNotAnalyze item)]\<rparr>" .
  with assms(1,3) show ?thesis
    by (simp add: organize_directory_def last_log_finish)
qed

theorem size_failure_skips_witness:
  "listdir with_dangling [''home''] = Some ([''a.jpg''] @ ''lost.txt'' # [''b.txt'']) \<and>
   ''lost.txt'' \<notin> set reserved \<and>
   getsize
     (disk (fold (process_item [''home''] False) [''a.jpg''] (start_run with_dangling [] [''home''] False)))
     [''home'', ''lost.txt''] = None \<and>
   last (log_lines (organize_directory with_dangling [] [''home''] False)) = (info, Complete False) \<and>
   log_lines (organize_directory with_dangling [] [''home''] False) =
     [(info, Starting False [''home'']), (info, Moved ''a.jpg'' ''Images''),
      (warning, CouldNotAnalyze ''lost.txt''), (info, Moved ''b.txt'' ''Documents''),
      (info, Complete False)] \<and>
   all_file_sizes (organize_directory with_dangling [] [''home''] False) = [3, 5] \<and>
   analytics_data (organize_directory with_dangling [] [''home''] False) =
     [(''Images'', 1, 3), (''Documents'', 1, 5), (''Videos'', 0, 0), (''Audio'', 0, 0),
      (''Archives'', 0, 0), (''Scripts'', 0, 0), (''Others'', 0, 0)] \<and>
   lookup (disk (organize_directory with_dangling [] [''home''] False)) [''home'', ''lost.txt''] = Some Dangling"
proof -
  let ?r = "fold (process_item [''home''] False) [''a.jpg''] (start_run with_dangling [] [''home''] False)"
  have h1: "listdir with_dangling [''home''] = Some ([''a.jpg''] @ ''lost.txt'' # [''b.txt''])"
    by (simp add: with_dangling_def listdir_def)
  have h2: "''lost.txt'' \<notin> set reserved" by (simp add: reserved_def)
  have r: "?r =
      \<lparr>disk = Dir [(''home'', Dir [(''lost.txt'', Dangling), (''b.txt'', File ''defgh''),
                                    (''Images'', Dir [(''a.jpg'', File ''abc'')])])],
       last_move_actions = [([''home'', ''Images'', ''a.jpg''], [''home'', ''a.jpg''])],
       analytics_data = [(''Images'', 1, 3), (''Documents'', 0, 0), (''Videos'', 0, 0), (''Audio'', 0, 0),
         (''Archives'', 0, 0), (''Scripts'', 0, 0), (''Others'', 0, 0)],
       files_processed_count = 1,
       all_file_sizes = [3],
       log_lines = [(info, Starting False [''home'']), (info, Moved ''a.jpg'' ''Images'')]\<rparr>"
    by (simp add: start_run_def with_dangling_def initial_analytics_eq run_eval category_a_jpg)
  have h4: "getsize (disk ?r) ([''home''] @ [''lost.txt'']) = None"
    using r by (simp add: getsize_def)
  from size_failure_skips[OF h1 h2 refl h4]
  have ends: "last (log_lines (organize_directory with_dangling [] [''home''] False)) = (info, Complete False)"
    by blast
  from h4 have h4': "getsize (disk ?r) [''home'', ''lost.txt''] = None" by simp
  have run: "log_lines (organize_directory with_dangling [] [''home''] False) =
     [(info, Starting False [''home'']), (info, Moved ''a.jpg'' ''Images''),
      (warning, CouldNotAnalyze ''lost.txt''), (info, Moved ''b.txt'' ''Documents''),
      (info, Complete False)]"
    "all_file_sizes (organize_directory with_dangling [] [''home''] False) = [3, 5]"
    "analytics_data (organize_directory with_dangling [] [''home''] False) =
     [(''Images'', 1, 3), (''Documents'', 1, 5), (''Videos'', 0, 0), (''Audio'', 0, 0),
      (''Archives'', 0, 0), (''Scripts'', 0, 0), (''Others'', 0, 0)]"
    "lookup (disk (organize_directory with_dangling [] [''home''] False)) [''home'', ''lost.txt''] = Some Dangling"
    by (simp_all add: with_dangling_run)
  from h1 h2 h4' ends run show ?thesis by blast
qed

section \<open>A move that fails on a collision\<close>

lemma file_of_getsize:
  assumes "\<not> isdir fs p" and "getsize fs p = Some sz"
  shows "\<exists>c. lookup fs p = Some (File c) \<and> length c = sz"
  using assms by (auto simp: isdir_def getsize_def split: option.splits node.splits)

lemma lookup_File_makedirs:
  assumes "makedirs fs p = Some fs'" and "lookup fs q = Some (File c)"
  shows "lookup fs' q = Some (File c)"
proof -
  from assms(2) have "stat fs q = Some (File c)" by (simp add: stat_File)
  with stat_makedirs[OF assms(1), of q] have "stat fs' q = Some (File c)" by simp
  then show ?thesis by (simp add: stat_File)
qed

lemma shutil_error_file:
  assumes "lookup fs src = Some (File c)" and "src \<noteq> dst"
  shows "shutil_move fs src dst = Inl ShutilError \<longleftrightarrow>
         isdir fs dst \<and> exists fs (dst @ basename src)"
  using assms
  by (auto simp: shutil_move_def Let_def split: option.splits)

text \<open>The handler of \<^verbatim>\<open>shutil.Error\<close> (lines 141 and 142). In a real run, for a
  file that has been analysed and whose category folder is there, \<^verbatim>\<open>shutil.move\<close>
  raises \<^verbatim>\<open>shutil.Error\<close> exactly when the destination path is a directory that
  already holds an entry of the file's name. When it does, the run logs a warning, the
  file stays at its path, no pair is appended to \<^verbatim>\<open>last_move_actions\<close> and
  \<^verbatim>\<open>files_processed_count\<close> is not incremented. When the move succeeds, the pair of
  the destination and the source path is appended and the count is incremented. Either
  way the loop goes on with the remaining entries. \<open>r\<close> is the state of the run when
  the loop reaches the file, \<open>r1\<close> the state once the file is analysed and its folder
  made.\<close>

lemma shutil_error_branch:
  assumes "item \<notin> set reserved"
    and "\<not> isdir (disk r) (target_path @ [item])"
    and "getsize (disk r) (target_path @ [item]) = Some file_size"
    and "makedirs (disk r) (target_path @ [category_of item]) = Some fs1"
    and "r1 = r\<lparr>all_file_sizes := all_file_sizes r @ [file_size],
                  analytics_data := record_file (category_of item) file_size (analytics_data r),
                  disk := fs1\<rparr>"
  shows "(shutil_move fs1 (target_path @ [item]) (target_path @ [category_of item, item]) = Inl ShutilError
            \<longleftrightarrow> isdir fs1 (target_path @ [category_of item, item]) \<and>
                exists fs1 (target_path @ [category_of item, item, item])) \<and>
         (shutil_move fs1 (target_path @ [item]) (target_path @ [category_of item, item]) = Inl ShutilError
            \<longrightarrow> process_item target_path False item r =
                  r1\<lparr>log_lines := log_lines r @ [(warning, CouldNotMove item)]\<rparr> \<and>
                lookup fs1 (target_path @ [item]) = lookup (disk r) (target_path @ [item]) \<and>
                (\<exists>c. lookup fs1 (target_path @ [item]) = Some (File c))) \<and>
         (\<forall>fs2. shutil_move fs1 (target_path @ [item]) (target_path @ [category_of item, item]) = Inr fs2
            \<longrightarrow> process_item target_path False item r =
                  r1\<lparr>disk := fs2,
                     log_lines := log_lines r @ [(info, Moved item (category_of item))],
                     last_move_actions := last_move_actions r @
                       [(target_path @ [category_of item, item], target_path @ [item])],
                     files_processed_count := files_processed_count r + 1\<rparr>) \<and>
         fold (process_item target_path False) (item # rest) r =
           fold (process_item target_path False) rest (process_item target_path False item r)"
proof -
  let ?src = "target_path @ [item]" and ?dst = "target_path @ [category_of item, item]"
  from file_of_getsize[OF assms(2,3)] obtain c where c: "lookup (disk r) ?src = Some (File c)"
    by blast
  from lookup_File_makedirs[OF assms(4) c] have c1: "lookup fs1 ?src = Some (File c)" .
  have ne: "?src \<noteq> ?dst" by simp
  have "basename ?src = [item]" by (simp add: basename_def)
  with shutil_error_file[OF c1 ne]
  have one: "shutil_move fs1 ?src ?dst = Inl ShutilError \<longleftrightarrow>
      isdir fs1 ?dst \<and> exists fs1 (target_path @ [category_of item, item, item])"
    by simp
  have two: "shutil_move fs1 ?src ?dst = Inl ShutilError \<Longrightarrow>
      process_item target_path False item r =
        r1\<lparr>log_lines := log_lines r @ [(warning, CouldNotMove item)]\<rparr>"
    using assms
    by (simp add: process_item_def category_of_def log_and_update_def Let_def)
  have three: "\<And>fs2. shutil_move fs1 ?src ?dst = Inr fs2 \<Longrightarrow>
      process_item target_path False item r =
        r1\<lparr>disk := fs2,
           log_lines := log_lines r @ [(info, Moved item (category_of item))],
           last_move_actions := last_move_actions r @ [(?dst, ?src)],
           files_processed_count := files_processed_count r + 1\<rparr>"
    using assms
    by (simp add: process_item_def category_of_def log_and_update_def Let_def)
  from one two three c c1 show ?thesis by simp
qed

text \<open>C2. The destination path of \<^verbatim>\<open>a.jpg\<close> already exists: the folder
  \<^verbatim>\<open>Images\<close> holds a regular file \<^verbatim>\<open>a.jpg\<close>. The real run does not warn and
  does not skip the file: \<^verbatim>\<open>shutil.move\<close> renames it onto the destination, the run
  logs the move at level info, appends the pair to \<^verbatim>\<open>last_move_actions\<close> and counts
  the file. The file that was at the destination is replaced: the one regular file left
  is the moved one, and no line of the log tells of the other.\<close>

theorem collision_overwrites:
  "lookup occupied [''home'', ''a.jpg''] = Some (File ''new'') \<and>
   exists occupied [''home'', ''Images'', ''a.jpg''] \<and>
   lookup occupied [''home'', ''Images'', ''a.jpg''] = Some (File ''old'') \<and>
   organize_directory occupied [] [''home''] False =
     \<lparr>disk = Dir [(''home'', Dir [(''Images'', Dir [(''a.jpg'', File ''new'')])])],
      last_move_actions = [([''home'', ''Images'', ''a.jpg''], [''home'', ''a.jpg''])],
      analytics_data =
        [(''Images'', 1, 3), (''Documents'', 0, 0), (''Videos'', 0, 0), (''Audio'', 0, 0),
         (''Archives'', 0, 0), (''Scripts'', 0, 0), (''Others'', 0, 0)],
      files_processed_count = 1,
      all_file_sizes = [3],
      log_lines =
        [(info, Starting False [''home'']), (info, Moved ''a.jpg'' ''Images''),
         (info, Skipping ''Images''), (info, Complete False)]\<rparr> \<and>
   regular_files (disk (organize_directory occupied [] [''home''] False)) =
     [([''home'', ''Images'', ''a.jpg''], ''new'')]"
  by (simp add: occupied_run) (simp add: occupied_def exists_def regular_files_def)

section \<open>A second run\<close>

lemma process_item_real_cases:
  obtains
    (reserved) "x \<in> set reserved" "process_item t False x r = r"
  | (directory) "isdir (disk r) (t @ [x])"
      "process_item t False x r = log_and_update (Skipping x) info r"
  | (unreadable) "process_item t False x r = log_and_update (CouldNotAnalyze x) warning r"
  | (no_folder) sz where
      "process_item t False x r = log_and_update (ErrorMoving x) error (analysed x sz r)"
  | (collision) sz fs1 where
      "process_item t False x r =
         log_and_update (CouldNotMove x) warning ((analysed x sz r)\<lparr>disk := fs1\<rparr>)"
  | (failed) sz fs1 where
      "process_item t False x r =
         log_and_update (ErrorMoving x) error ((analysed x sz r)\<lparr>disk := fs1\<rparr>)"
  | (moved) c fs1 fs2 where
      "x \<notin> set reserved"
      "lookup (disk r) (t @ [x]) = Some (File c)"
      "makedirs (disk r) (t @ [category_of x]) = Some fs1"
      "shutil_move fs1 (t @ [x]) (t @ [category_of x, x]) = Inr fs2"
      "process_item t False x r =
         (log_and_update (Moved x (category_of x)) info ((analysed x (length c) r)\<lparr>disk := fs2\<rparr>))
           \<lparr>last_move_actions := last_move_actions r @ [(t @ [category_of x, x], t @ [x])],
            files_processed_count := files_processed_count r + 1\<rparr>"
proof (cases "x \<in> set reserved")
  case True
  then show ?thesis by (intro reserved) (simp_all add: process_item_def)
next
  case nr: False
  show ?thesis
  proof (cases "isdir (disk r) (t @ [x])")
    case True
    with nr show ?thesis by (intro directory) (simp_all add: process_item_def)
  next
    case nd: False
    show ?thesis
    proof (cases "getsize (disk r) (t @ [x])")
      case None
      with nr nd show ?thesis by (intro unreadable) (simp add: process_item_def)
    next
      case (Some sz)
      from file_of_getsize[OF nd Some] obtain c where c: "lookup (disk r) (t @ [x]) = Some (File c)"
        and sz: "sz = length c" by blast
      show ?thesis
      proof (cases "makedirs (disk r) (t @ [category_of x])")
        case None
        with nr nd Some show ?thesis
          by (intro no_folder[where sz=sz])
            (simp add: process_item_def analysed_def category_of_def Let_def)
      next
        case mk: (Some fs1)
        show ?thesis
        proof (cases "shutil_move fs1 (t @ [x]) (t @ [category_of x, x])")
          case (Inl e)
          show ?thesis
          proof (cases e)
            case ShutilError
            with nr nd Some mk Inl show ?thesis
              by (intro collision[where sz=sz and ?fs1.0=fs1])
                (simp add: process_item_def analysed_def category_of_def Let_def)
          next
            case OSError
            with nr nd Some mk Inl show ?thesis
              by (intro failed[where sz=sz and ?fs1.0=fs1])
                (simp add: process_item_def analysed_def category_of_def Let_def)
          qed
        next
          case (Inr fs2)
          with nr nd Some mk c sz show ?thesis
            by (intro moved[where c=c and ?fs1.0=fs1 and ?fs2.0=fs2])
              (simp_all add: process_item_def analysed_def category_of_def Let_def log_and_update_def)
        qed
      qed
    qed
  qed
qed

lemma quiet_log [simp]:
  "quiet (log_and_update m l r) \<longleftrightarrow> quiet r \<and> l = info"
  by (auto simp: quiet_def log_and_update_def)

lemma quiet_update [simp]:
  "quiet (r\<lparr>disk := d\<rparr>) = quiet r"
  "quiet (r\<lparr>files_processed_count := n\<rparr>) = quiet r"
  "quiet (r\<lparr>last_move_actions := a\<rparr>) = quiet r"
  "quiet (analysed x sz r) = quiet r"
  by (simp_all add: quiet_def analysed_def)

lemma quiet_step: "quiet (process_item t d x r) \<Longrightarrow> quiet r"
  by (auto simp: process_item_def Let_def quiet_def log_and_update_def
      split: option.splits sum.splits move_error.splits if_splits)

lemma quiet_fold: "quiet (fold (process_item t d) xs r) \<Longrightarrow> quiet r"
  by (induction xs arbitrary: r) (auto dest: quiet_step)

lemma quiet_finish [simp]: "quiet (finish_run d r) = quiet r"
  by (simp add: finish_run_def)

lemma settled_step:
  assumes "settled t (x # rest) (disk r)" and "quiet (process_item t False x r)"
  shows "settled t rest (disk (process_item t False x r))"
proof (cases t x r rule: process_item_real_cases)
  case reserved
  with assms(1) show ?thesis by (auto simp: settled_def)
next
  case directory
  with assms(1) show ?thesis by (auto simp: settled_def log_and_update_def)
next
  case unreadable
  with assms(2) show ?thesis by simp
next
  case (no_folder sz)
  with assms(2) show ?thesis by simp
next
  case (collision sz fs1)
  with assms(2) show ?thesis by simp
next
  case (failed sz fs1)
  with assms(2) show ?thesis by simp
next
  case (moved c fs1 fs2)
  then have d: "disk (process_item t False x r) = fs2"
    by (simp add: log_and_update_def analysed_def)
  have np: "\<And>q. \<not> prefix (t @ [category_of x, x]) (t @ q) \<longleftrightarrow> \<not> prefix [category_of x, x] q"
    by simp
  have root: "isdir fs2 t"
  proof -
    have "\<not> prefix (t @ [category_of x, x]) t" "\<not> prefix (t @ [x]) t"
      by (auto simp: prefix_def)
    from stat_shutil_move[OF moved(4) this(1)] this(2) stat_makedirs_weak[OF moved(3), of t] assms(1)
    show ?thesis by (auto simp: settled_def isdir_stat)
  qed
  have "y \<in> set rest \<or> y \<in> set reserved \<or> isdir fs2 (t @ [y])" if y: "stat fs2 (t @ [y]) \<noteq> None" for y
  proof -
    have nd: "\<not> prefix (t @ [category_of x, x]) (t @ [y])" by simp
    note mv = stat_shutil_move[OF moved(4) nd]
    note mk = stat_makedirs_weak[OF moved(3), of "t @ [y]"]
    show ?thesis
    proof (cases "x = y")
      case True
      with mv y show ?thesis by simp
    next
      case False
      then have "\<not> prefix (t @ [x]) (t @ [y])" by simp
      with mv have "stat fs2 (t @ [y]) = stat fs1 (t @ [y]) \<or> stat fs2 (t @ [y]) = Some (Dir [])"
        by blast
      with mk have "stat fs2 (t @ [y]) = stat (disk r) (t @ [y]) \<or> stat fs2 (t @ [y]) = Some (Dir [])"
        by auto
      then show ?thesis
      proof
        assume same: "stat fs2 (t @ [y]) = stat (disk r) (t @ [y])"
        with y assms(1) False have "y \<in> set rest \<or> y \<in> set reserved \<or> isdir (disk r) (t @ [y])"
          by (auto simp: settled_def)
        with same show ?thesis by (auto simp: isdir_stat)
      next
        assume "stat fs2 (t @ [y]) = Some (Dir [])"
        then show ?thesis by (simp add: isdir_stat)
      qed
    qed
  qed
  with root d show ?thesis by (simp add: settled_def)
qed

lemma settled_fold:
  assumes "settled t xs (disk r)" and "quiet (fold (process_item t False) xs r)"
  shows "settled t [] (disk (fold (process_item t False) xs r))"
  using assms
proof (induction xs arbitrary: r)
  case Nil
  then show ?case by simp
next
  case (Cons x xs)
  from Cons.prems(2) have "quiet (process_item t False x r)"
    by (auto dest: quiet_fold)
  from settled_step[OF Cons.prems(1) this] Cons.IH[of "process_item t False x r"] Cons.prems(2)
  show ?case by simp
qed

lemma settled_initial:
  assumes "listdir fs t = Some xs"
  shows "settled t xs fs"
proof -
  from assms obtain es where es: "lookup fs t = Some (Dir es)" and xs: "xs = map fst es"
    by (auto simp: listdir_def split: option.splits node.splits)
  have "y \<in> set xs" if "stat fs (t @ [y]) \<noteq> None" for y
  proof -
    from that es have "map_of es y \<noteq> None"
      by (auto simp: stat_append split: option.splits)
    then show ?thesis using xs
      by (metis (no_types, opaque_lifting) domIff dom_map_of_conv_image_fst list.set_map)
  qed
  with es show ?thesis by (auto simp: settled_def isdir_def)
qed

lemma skip_only_fold:
  assumes "\<forall>y \<in> set ys. y \<in> set reserved \<or> isdir (disk r) (t @ [y])"
  shows "disk (fold (process_item t d) ys r) = disk r \<and>
         files_processed_count (fold (process_item t d) ys r) = files_processed_count r \<and>
         last_move_actions (fold (process_item t d) ys r) = last_move_actions r \<and>
         quiet (fold (process_item t d) ys r) = quiet r"
  using assms
proof (induction ys arbitrary: r)
  case Nil
  then show ?case by simp
next
  case (Cons x ys)
  from Cons.prems have "x \<in> set reserved \<or> isdir (disk r) (t @ [x])" by simp
  then have step: "process_item t d x r = r \<or> process_item t d x r = log_and_update (Skipping x) info r"
    by (auto simp: process_item_def Let_def)
  then have same: "disk (process_item t d x r) = disk r"
    "files_processed_count (process_item t d x r) = files_processed_count r"
    "last_move_actions (process_item t d x r) = last_move_actions r"
    "quiet (process_item t d x r) = quiet r"
    by (auto simp: log_and_update_def quiet_def)
  with Cons.prems have "\<forall>y \<in> set ys. y \<in> set reserved \<or> isdir (disk (process_item t d x r)) (t @ [y])"
    by simp
  from Cons.IH[OF this] same show ?case by simp
qed

text \<open>C5, as amended. If a real run logs no warning and no error, a second real run on the
  file system and action log it left processes no file, logs no warning and no error, and
  leaves the file system as it found it.\<close>

theorem second_run_idle:
  assumes "quiet (organize_directory fs0 actions target_path False)"
    and "r1 = organize_directory fs0 actions target_path False"
    and "r2 = organize_directory (disk r1) (last_move_actions r1) target_path False"
  shows "files_processed_count r2 = 0 \<and> quiet r2 \<and> disk r2 = disk r1 \<and> last_move_actions r2 = []"
proof -
  let ?r0 = "start_run fs0 actions target_path False"
  from assms(1) obtain xs where xs: "listdir fs0 target_path = Some xs"
    by (cases "listdir fs0 target_path") (auto simp: organize_directory_def)
  let ?rl = "fold (process_item target_path False) xs ?r0"
  from xs assms(2) have r1: "r1 = finish_run False ?rl"
    by (simp add: organize_directory_def)
  from assms(1,2) have "quiet r1" by simp
  with r1 have q: "quiet ?rl" by simp
  have "settled target_path xs (disk ?r0)"
    using settled_initial[OF xs] by (simp add: start_run_def)
  from settled_fold[OF this q] r1 have s: "settled target_path [] (disk r1)" by simp
  then obtain ys where ys: "listdir (disk r1) target_path = Some ys"
    by (auto simp: settled_def isdir_def listdir_def split: option.splits node.splits)
  let ?s0 = "start_run (disk r1) (last_move_actions r1) target_path False"
  have "\<forall>y \<in> set ys. y \<in> set reserved \<or> isdir (disk ?s0) (target_path @ [y])"
    using listed_present[OF ys] s by (auto simp: settled_def start_run_def)
  note idle = skip_only_fold[OF this, of False]
  have "quiet ?s0" by (simp add: quiet_def start_run_def)
  with idle have q2: "quiet (fold (process_item target_path False) ys ?s0)" by simp
  from ys assms(3) have r2: "r2 = finish_run False (fold (process_item target_path False) ys ?s0)"
    by (simp add: organize_directory_def)
  from idle have "disk r2 = disk r1" "files_processed_count r2 = 0" "last_move_actions r2 = []"
    by (simp_all add: r2 start_run_def)
  with q2 r2 show ?thesis by simp
qed

text \<open>Without that condition the second run can process a file: with a regular file
  named \<^verbatim>\<open>Images\<close> listed after \<^verbatim>\<open>a.jpg\<close>, the first run cannot make the folder
  for \<^verbatim>\<open>a.jpg\<close>, moves the file \<^verbatim>\<open>Images\<close> away, and the second run moves
  \<^verbatim>\<open>a.jpg\<close>. And it can warn: an entry whose size cannot be read is warned about in
  every run.\<close>

theorem second_run_not_idle:
  "files_processed_count
     (organize_directory
        (disk (organize_directory late_folder [] [''home''] False))
        (last_move_actions (organize_directory late_folder [] [''home''] False))
        [''home''] False) = 1 \<and>
   log_lines
     (organize_directory
        (disk (organize_directory with_dangling [] [''home''] False))
        (last_move_actions (organize_directory with_dangling [] [''home''] False))
        [''home''] False) =
     [(info, Starting False [''home'']), (warning, CouldNotAnalyze ''lost.txt''),
      (info, Skipping ''Images''), (info, Skipping ''Documents''), (info, NoNewFiles),
      (info, Complete False)]"
  by (simp add: late_folder_run late_folder_again with_dangling_run with_dangling_again)

theorem second_run_idle_witness:
  "quiet (organize_directory plain [] [''home''] False) \<and>
   files_processed_count
     (organize_directory
        (disk (organize_directory plain [] [''home''] False))
        (last_move_actions (organize_directory plain [] [''home''] False))
        [''home''] False) = 0 \<and>
   quiet
     (organize_directory
        (disk (organize_directory plain [] [''home''] False))
        (last_move_actions (organize_directory plain [] [''home''] False))
        [''home''] False) \<and>
   disk
     (organize_directory
        (disk (organize_directory plain [] [''home''] False))
        (last_move_actions (organize_directory plain [] [''home''] False))
        [''home''] False) =
     Dir [(''home'', Dir [(''sub'', Dir []), (''Images'', Dir [(''a.jpg'', File ''abc'')]),
                          (''Documents'', Dir [(''b.txt'', File ''defgh'')])])]"
proof -
  have q: "quiet (organize_directory plain [] [''home''] False)"
    by (simp add: plain_run quiet_def)
  from second_run_idle[OF q refl refl] q show ?thesis
    by (simp add: plain_run)
qed

section \<open>Organize, then undo\<close>








lemma category_in_categories: "category_of x \<in> set categories"
proof -
  have "''Others'' \<in> fst ` set FILE_TYPE_MAP" by (simp add: FILE_TYPE_MAP_def)
  then have "insert ''Others'' (fst ` set FILE_TYPE_MAP) = fst ` set FILE_TYPE_MAP"
    by blast
  with classify_in_keys[of FILE_TYPE_MAP "lower (snd (splitext x))"]
  show ?thesis by (simp add: category_of_def categories_def)
qed


























section \<open>Symbolic links that lead somewhere\<close>

text \<open>The loop written over the calls is the loop of the tree when the calls are those
  of the tree.\<close>

lemma process_item_on_tree: "process_item_on tree_calls = process_item"
  unfolding process_item_on_def process_item_def tree_calls_def calls.select_convs ..

lemma organize_directory_on_tree: "organize_directory_on tree_calls = organize_directory"
  unfolding organize_directory_on_def organize_directory_def process_item_on_tree
  unfolding tree_calls_def calls.select_convs ..

subsection \<open>Without links, the run is the run on the tree\<close>





lemma lookup_l_snoc:
  "lookup_l fs (p @ [x]) = (case lookup_l fs p of Some (Folder es) \<Rightarrow> map_of es x | _ \<Rightarrow> None)"
proof (induction fs p rule: lookup_l.induct)
  case (1 n)
  then show ?case by (cases n) (auto split: option.splits)
next
  case (2 es x xs)
  then show ?case by (auto split: option.splits)
qed auto






















lemma as_tree_File [simp]: "as_tree n = File c \<longleftrightarrow> n = Regular c"
  by (cases n) auto

lemma as_tree_Dir: "as_tree n = Dir ds \<Longrightarrow> \<exists>es. n = Folder es"
  by (cases n) auto













lemma tree_run_fields [simp]:
  "disk (tree_run r) = as_tree (disk r)"
  "last_move_actions (tree_run r) = last_move_actions r"
  "analytics_data (tree_run r) = analytics_data r"
  "files_processed_count (tree_run r) = files_processed_count r"
  "all_file_sizes (tree_run r) = all_file_sizes r"
  "log_lines (tree_run r) = log_lines r"
  by (simp_all add: tree_run_def)





subsection \<open>The snapshot of a dry run\<close>






text \<open>Two more runs with such links. A link moved onto a regular file replaces it, as a
  file does. And with a link named \<^verbatim>\<open>Images\<close> to the directory itself, the
  destination of \<^verbatim>\<open>a.jpg\<close> is \<^verbatim>\<open>a.jpg\<close>: the move changes nothing and is
  logged as done, in the first run and in every run after it.\<close>

lemma link_onto_file_run:
  "organize_directory_on link_calls link_onto_file [] [''home''] False =
     \<lparr>disk =
        Folder [(''home'',
                 Folder [(''Documents'',
                          Folder [(''link.txt'', Symlink (Relative [''Images'', ''a.jpg'']))]),
                         (''Images'', Folder [(''a.jpg'', Regular ''abc'')])])],
      last_move_actions =
        [([''home'', ''Images'', ''a.jpg''], [''home'', ''a.jpg'']),
         ([''home'', ''Documents'', ''link.txt''], [''home'', ''link.txt''])],
      analytics_data =
        [(''Images'', 1, 3), (''Documents'', 1, 3), (''Videos'', 0, 0), (''Audio'', 0, 0),
         (''Archives'', 0, 0), (''Scripts'', 0, 0), (''Others'', 0, 0)],
      files_processed_count = 2,
      all_file_sizes = [3, 3],
      log_lines =
        [(info, Starting False [''home'']), (info, Moved ''a.jpg'' ''Images''),
         (info, Moved ''link.txt'' ''Documents''), (info, Skipping ''Documents''),
         (info, Complete False)]\<rparr>"
  by code_simp

lemma link_to_self_run:
  "organize_directory_on link_calls link_to_self actions [''home''] False =
     \<lparr>disk = link_to_self,
      last_move_actions = [([''home'', ''Images'', ''a.jpg''], [''home'', ''a.jpg''])],
      analytics_data =
        [(''Images'', 1, 3), (''Documents'', 0, 0), (''Videos'', 0, 0), (''Audio'', 0, 0),
         (''Archives'', 0, 0), (''Scripts'', 0, 0), (''Others'', 0, 0)],
      files_processed_count = 1,
      all_file_sizes = [3],
      log_lines =
        [(info, Starting False [''home'']), (info, Moved ''a.jpg'' ''Images''),
         (info, Skipping ''Images''), (info, Complete False)]\<rparr>"
  by code_simp

end
